theory Spec2Isabelle
  imports Main "HOL-Library.Multiset"
begin

section \<open>The template parser: class DictFromTemplate of src/regrws/convert.py\<close>

text \<open>
  Strings are Python 2 byte strings, modelled as \<open>string\<close>. A Python dict is modelled as
  an association list with distinct keys, listed in the order in which the keys were first
  inserted. The values are lists of strings.
\<close>

type_synonym dict = "(string \<times> string list) list"

definition newline :: char where
  "newline = CHR 0x0A"

text \<open>The regular expression class \<open>\d\<close> on a byte string: the ten ASCII digits.\<close>

definition is_digit :: "char \<Rightarrow> bool" where
  "is_digit c = (c \<in> set ''0123456789'')"

text \<open>
  \<open>str.strip()\<close> without argument removes leading and trailing whitespace: space, tab,
  line feed, vertical tab, form feed and carriage return.
\<close>

definition is_space :: "char \<Rightarrow> bool" where
  "is_space c = (c \<in> set [CHR '' '', CHR 0x09, CHR 0x0A, CHR 0x0B, CHR 0x0C, CHR 0x0D])"

definition strip :: "string \<Rightarrow> string" where
  "strip s = rev (dropWhile is_space (rev (dropWhile is_space s)))"

text \<open>
  \<open>_regex = re.compile(r'\d\d\.(.*):(.*)')\<close>, applied with \<open>match\<close> (anchored at the start
  of the line, not at its end). A dot matches every character but the line feed. The first
  group is greedy: the engine first lets it take every character up to the first line feed,
  then gives characters back one at a time until a colon follows
  (\<open>backtrack\<close>, from the longest candidate \<open>dot_star_max\<close> down to the empty one). The
  second group then takes every character up to the next line feed.
\<close>

definition dot_star_max :: "string \<Rightarrow> nat" where
  "dot_star_max s = length (takeWhile (\<lambda>c. c \<noteq> newline) s)"

definition try_colon :: "string \<Rightarrow> nat \<Rightarrow> (string \<times> string) option" where
  "try_colon s n =
     (case drop n s of
        [] \<Rightarrow> None
      | c # rest \<Rightarrow>
          if c = CHR '':'' then Some (take n s, takeWhile (\<lambda>c. c \<noteq> newline) rest) else None)"

fun backtrack :: "string \<Rightarrow> nat \<Rightarrow> (string \<times> string) option" where
  "backtrack s 0 = try_colon s 0"
| "backtrack s (Suc n) =
     (case try_colon s (Suc n) of Some r \<Rightarrow> Some r | None \<Rightarrow> backtrack s n)"

definition regex_match :: "string \<Rightarrow> (string \<times> string) option" where
  "regex_match l =
     (case l of
        d1 # d2 # dot # s \<Rightarrow>
          if is_digit d1 \<and> is_digit d2 \<and> dot = CHR ''.''
          then backtrack s (dot_star_max s) else None
      | _ \<Rightarrow> None)"

record DictFromTemplate =
  template :: "string list"
  parsed_template :: dict

definition DictFromTemplate_init :: "string list \<Rightarrow> DictFromTemplate" where
  "DictFromTemplate_init t = \<lparr>template = t, parsed_template = []\<rparr>"

text \<open>\<open>_process\<close>: the match is the pair of its two groups.\<close>

definition process :: "string \<times> string \<Rightarrow> dict \<Rightarrow> dict" where
  "process m d =
     (let key = strip (fst m); val = strip (snd m)
      in if key \<in> set (map fst d)
         then map (\<lambda>(k, vs). if k = key then (k, vs @ [val]) else (k, vs)) d
         else d @ [(key, [val])])"

fun run_lines :: "string list \<Rightarrow> dict \<Rightarrow> dict" where
  "run_lines [] d = d"
| "run_lines (l # ls) d =
     (case regex_match l of
        Some m \<Rightarrow> run_lines ls (process m d)
      | None \<Rightarrow> run_lines ls d)"

definition DictFromTemplate_run :: "DictFromTemplate \<Rightarrow> dict" where
  "DictFromTemplate_run self = run_lines (template self) (parsed_template self)"

text \<open>
  The values the specification associates with a label: the trimmed values of the matching
  lines whose trimmed label is that label, in line order.
\<close>

definition values_of :: "string \<Rightarrow> string list \<Rightarrow> string list" where
  "values_of k ls =
     concat (map (\<lambda>l. case regex_match l of
                          None \<Rightarrow> []
                        | Some m \<Rightarrow> if strip (fst m) = k then [strip (snd m)] else []) ls)"

section \<open>The payload and the objects of the payload module\<close>

text \<open>
  Modelled from the spec: the payload classes (\<open>regrws.payload.*\<close>) and the error class
  \<open>regrws.restful.RegRwsError\<close>, which are not among the converter sources. The spec
  describes a payload as an object that exposes named attributes, each either a scalar list
  or a single-element list wrapping a nested container (address, phones, emails,
  point-of-contact links, comments); the converters use these classes through attribute
  access and constructor calls only, and the records below have the fields that those
  calls name.

  A payload is a Python object: a mapping from attribute names to values. An attribute
  the class does not declare is absent from the mapping (reading it raises
  \<open>AttributeError\<close>). A declared attribute holds \<open>None\<close> or a list. The elements of a list
  are strings, references to container objects, or country value objects.

  The nested containers are mutable objects that the handlers update in place through
  \<open>self.payload.<field>[0]\<close>. They live in a store, \<open>heap\<close>: a list of objects, where the
  address of an object is its index and a constructor call appends a new object.
\<close>

datatype error =
    RegRwsError string
  | NotImplementedError string
  | AttributeError
  | TypeError
  | IndexError
  | LookupFailure

text \<open>\<open>module.line(count, line)\<close>: the two positional arguments.\<close>

record line =
  line_count :: int
  line_text :: string

text \<open>\<open>module.type_(code=[type_code])\<close>\<close>

record phone_type =
  code :: "string list"

text \<open>
  \<open>module.phone(number=value, type_=type_)\<close>; the attribute \<open>type_\<close> is the field
  \<open>phone_type\<close> here, and \<open>extension\<close> is unset until assigned.
\<close>

record phone =
  number :: "string list"
  phone_type :: "phone_type list"
  extension :: "string list option"

text \<open>\<open>module.pocLinkRef(function, value[0])\<close>: the two positional arguments.\<close>

record pocLinkRef =
  poc_function :: string
  poc_handle :: string

text \<open>
  \<open>module.iso3166_1(code2=..., code3=..., name=...)\<close>; a keyword argument that is not
  supplied is \<open>None\<close> here.
\<close>

record iso3166_1 =
  code2 :: "string list"
  code3 :: "string list option"
  name :: "string list option"

datatype obj =
    StreetAddress "line list"
  | Comment "line list"
  | Phones "phone list"
  | PocLinks "pocLinkRef list"
  | Emails "string list"

datatype elem = Str string | Ref nat | Iso iso3166_1

datatype pyval = PyNone | PyList "elem list"

text \<open>
  \<open>cls\<close> is the text that \<open>'%s' % self.payload.__class__\<close> produces.
\<close>

record state =
  cls :: string
  attrs :: "string \<rightharpoonup> pyval"
  heap :: "obj list"

text \<open>
  A method either returns or raises; in both cases the payload and the store are left in
  the state reached so far.
\<close>

datatype result = Ok state | Raised error state

fun state_of :: "result \<Rightarrow> state" where
  "state_of (Ok s) = s"
| "state_of (Raised e s) = s"

fun is_ok :: "result \<Rightarrow> bool" where
  "is_ok (Ok s) = True"
| "is_ok (Raised e s) = False"

definition and_then :: "result \<Rightarrow> (state \<Rightarrow> result) \<Rightarrow> result" where
  "and_then r f = (case r of Ok s \<Rightarrow> f s | Raised e s \<Rightarrow> Raised e s)"

text \<open>\<open>getattr(self.payload, attr, None)\<close>\<close>

definition getattr_default :: "state \<Rightarrow> string \<Rightarrow> pyval" where
  "getattr_default s a = (case attrs s a of None \<Rightarrow> PyNone | Some v \<Rightarrow> v)"

text \<open>\<open>setattr(self.payload, attr, value)\<close> and \<open>self.payload.attr = value\<close>\<close>

definition setattr :: "state \<Rightarrow> string \<Rightarrow> pyval \<Rightarrow> state" where
  "setattr s a v = s\<lparr>attrs := (attrs s)(a \<mapsto> v)\<rparr>"

text \<open>Truth value of an attribute value: \<open>None\<close> and the empty list are false.\<close>

definition falsy :: "pyval \<Rightarrow> bool" where
  "falsy v = (v = PyNone \<or> v = PyList [])"

text \<open>\<open>enumerate(value)\<close> and \<open>enumerate(value, 1)\<close>\<close>

fun py_enumerate :: "int \<Rightarrow> 'a list \<Rightarrow> (int \<times> 'a) list" where
  "py_enumerate n [] = []"
| "py_enumerate n (x # xs) = (n, x) # py_enumerate (n + 1) xs"

subsection \<open>Access to the first element of a payload attribute\<close>

text \<open>
  \<open>self.payload.<field>[0]\<close>: \<open>AttributeError\<close> when the attribute is not declared,
  \<open>TypeError\<close> when it is \<open>None\<close>, \<open>IndexError\<close> when it is the empty list.
\<close>

definition first_elem :: "string \<Rightarrow> state \<Rightarrow> error + elem" where
  "first_elem field s =
     (case attrs s field of
        None \<Rightarrow> Inl AttributeError
      | Some PyNone \<Rightarrow> Inl TypeError
      | Some (PyList []) \<Rightarrow> Inl IndexError
      | Some (PyList (e # es)) \<Rightarrow> Inr e)"

text \<open>A reference always points into the store in Python; outside it the model has no object.\<close>

definition deref :: "state \<Rightarrow> nat \<Rightarrow> obj option" where
  "deref s a = (if a < length (heap s) then Some (heap s ! a) else None)"

text \<open>
  The methods of the container classes. Looking a method up on an object that does not
  have it raises \<open>AttributeError\<close> (\<open>None\<close> here); street address and comment containers
  both have \<open>add_line\<close>.
\<close>

definition add_line :: "obj \<Rightarrow> (line \<Rightarrow> obj) option" where
  "add_line ob =
     (case ob of
        StreetAddress ls \<Rightarrow> Some (\<lambda>l. StreetAddress (ls @ [l]))
      | Comment ls \<Rightarrow> Some (\<lambda>l. Comment (ls @ [l]))
      | _ \<Rightarrow> None)"

definition add_phone :: "obj \<Rightarrow> (phone \<Rightarrow> obj) option" where
  "add_phone ob = (case ob of Phones ps \<Rightarrow> Some (\<lambda>p. Phones (ps @ [p])) | _ \<Rightarrow> None)"

definition add_pocLinkRef :: "obj \<Rightarrow> (pocLinkRef \<Rightarrow> obj) option" where
  "add_pocLinkRef ob = (case ob of PocLinks rs \<Rightarrow> Some (\<lambda>r. PocLinks (rs @ [r])) | _ \<Rightarrow> None)"

definition add_email :: "obj \<Rightarrow> (string \<Rightarrow> obj) option" where
  "add_email ob = (case ob of Emails es \<Rightarrow> Some (\<lambda>e. Emails (es @ [e])) | _ \<Rightarrow> None)"

text \<open>
  \<open>self.payload.<field>[0].<method>(<argument>)\<close>: the method is looked up first, then the
  argument is evaluated (it may raise), then the object is updated in place.
\<close>

definition call_on_first ::
  "string \<Rightarrow> (obj \<Rightarrow> ('a \<Rightarrow> obj) option) \<Rightarrow> error + 'a \<Rightarrow> state \<Rightarrow> result" where
  "call_on_first field meth arg s =
     (case first_elem field s of
        Inl e \<Rightarrow> Raised e s
      | Inr el \<Rightarrow>
         (case el of
            Ref a \<Rightarrow>
              (case deref s a of
                 None \<Rightarrow> Raised AttributeError s
               | Some ob \<Rightarrow>
                  (case meth ob of
                     None \<Rightarrow> Raised AttributeError s
                   | Some f \<Rightarrow>
                      (case arg of
                         Inl e \<Rightarrow> Raised e s
                       | Inr x \<Rightarrow> Ok (s\<lparr>heap := (heap s)[a := f x]\<rparr>))))
          | _ \<Rightarrow> Raised AttributeError s))"

text \<open>
  \<open>if not self.payload.<field>: self.payload.<field> = [self.module.<container>()]\<close>
\<close>

definition ensure_container :: "string \<Rightarrow> obj \<Rightarrow> state \<Rightarrow> result" where
  "ensure_container field fresh s =
     (case attrs s field of
        None \<Rightarrow> Raised AttributeError s
      | Some v \<Rightarrow>
          if falsy v
          then Ok (s\<lparr>attrs := (attrs s)(field \<mapsto> PyList [Ref (length (heap s))]),
                     heap := heap s @ [fresh]\<rparr>)
          else Ok s)"

section \<open>The builder: class _PayloadFromDict of src/regrws/convert.py\<close>

text \<open>
  The methods below are those of \<open>_PayloadFromDict\<close> in src/regrws/convert.py. The class
  \<open>PayloadFromDict\<close> of src/regrws/payload/converter.py has the same text for \<open>run\<close>,
  \<open>_assign\<close>, \<open>_contact_type\<close>, \<open>_phone\<close> and its three callers, \<open>_office_extension\<close>,
  \<open>_email_address\<close> and \<open>_verify_attribute\<close>; its \<open>_address\<close> and \<open>_country_code\<close> differ and
  are modelled separately below.
\<close>

definition verify_attribute :: "string \<Rightarrow> state \<Rightarrow> result" where
  "verify_attribute a s =
     (if getattr_default s a = PyNone
      then Raised (RegRwsError (cls s @ '' does not have attribute '' @ a)) s
      else Ok s)"

definition assign :: "string \<Rightarrow> string list \<Rightarrow> state \<Rightarrow> result" where
  "assign a val s =
     and_then (verify_attribute a s) (\<lambda>s. Ok (setattr s a (PyList (map Str val))))"

definition contact_type :: "string list \<Rightarrow> state \<Rightarrow> result" where
  "contact_type val s =
     and_then (verify_attribute ''contactType'' s)
       (\<lambda>s. if val = [''P''] then Ok (setattr s ''contactType'' (PyList [Str ''PERSON'']))
            else if val = [''R''] then Ok (setattr s ''contactType'' (PyList [Str ''ROLE'']))
            else Ok s)"

fun add_lines :: "string \<Rightarrow> (int \<times> string) list \<Rightarrow> state \<Rightarrow> result" where
  "add_lines field [] s = Ok s"
| "add_lines field ((cnt, l) # rest) s =
     and_then
       (call_on_first field add_line (Inr \<lparr>line_count = cnt, line_text = l\<rparr>) s)
       (add_lines field rest)"

definition address :: "string list \<Rightarrow> state \<Rightarrow> result" where
  "address val s =
     and_then (ensure_container ''streetAddress'' (StreetAddress []) s)
       (add_lines ''streetAddress'' (py_enumerate 0 val))"

definition comment :: "string list \<Rightarrow> state \<Rightarrow> result" where
  "comment val s =
     and_then (ensure_container ''comment'' (Comment []) s)
       (add_lines ''comment'' (py_enumerate 0 val))"

definition country_code :: "string list \<Rightarrow> state \<Rightarrow> result" where
  "country_code val s =
     Ok (setattr s ''iso3166_1'' (PyList [Iso \<lparr>code2 = val, code3 = None, name = None\<rparr>]))"

definition phone_method :: "string list \<Rightarrow> string \<Rightarrow> state \<Rightarrow> result" where
  "phone_method val type_code s =
     and_then (ensure_container ''phones'' (Phones []) s)
       (call_on_first ''phones'' add_phone
          (Inr \<lparr>number = val, phone_type = [\<lparr>code = [type_code]\<rparr>], extension = None\<rparr>))"

definition phone_office :: "string list \<Rightarrow> state \<Rightarrow> result" where
  "phone_office val s = phone_method val ''O'' s"

definition phone_mobile :: "string list \<Rightarrow> state \<Rightarrow> result" where
  "phone_mobile val s = phone_method val ''M'' s"

definition phone_fax :: "string list \<Rightarrow> state \<Rightarrow> result" where
  "phone_fax val s = phone_method val ''F'' s"

definition poc :: "string list \<Rightarrow> string \<Rightarrow> state \<Rightarrow> result" where
  "poc val func s =
     and_then (ensure_container ''pocLinks'' (PocLinks []) s)
       (call_on_first ''pocLinks'' add_pocLinkRef
          (case val of
             [] \<Rightarrow> Inl IndexError
           | v # vs \<Rightarrow> Inr \<lparr>poc_function = func, poc_handle = v\<rparr>))"

definition poc_admin :: "string list \<Rightarrow> state \<Rightarrow> result" where
  "poc_admin val s = poc val ''AD'' s"

definition poc_tech :: "string list \<Rightarrow> state \<Rightarrow> result" where
  "poc_tech val s = poc val ''T'' s"

definition poc_abuse :: "string list \<Rightarrow> state \<Rightarrow> result" where
  "poc_abuse val s = poc val ''AB'' s"

definition poc_noc :: "string list \<Rightarrow> state \<Rightarrow> result" where
  "poc_noc val s = poc val ''N'' s"

text \<open>
  The loop of \<open>_office_extension\<close> over the phone entries: \<open>phone.type_[0].code[0]\<close> raises
  \<open>IndexError\<close> on an empty list; the entries visited before keep their update.
\<close>

fun set_extension :: "string list \<Rightarrow> phone list \<Rightarrow> phone list \<times> error option" where
  "set_extension val [] = ([], None)"
| "set_extension val (p # ps) =
     (case phone_type p of
        [] \<Rightarrow> (p # ps, Some IndexError)
      | t # ts \<Rightarrow>
         (case code t of
            [] \<Rightarrow> (p # ps, Some IndexError)
          | c # cs \<Rightarrow>
             (case set_extension val ps of
                (ps', e) \<Rightarrow>
                  ((if c = ''O'' then p\<lparr>extension := Some val\<rparr> else p) # ps', e))))"

definition office_extension :: "string list \<Rightarrow> state \<Rightarrow> result" where
  "office_extension val s =
     (case first_elem ''phones'' s of
        Inl e \<Rightarrow> Raised e s
      | Inr el \<Rightarrow>
         (case el of
            Ref a \<Rightarrow>
              (case deref s a of
                 Some (Phones ps) \<Rightarrow>
                   (case set_extension val ps of
                      (ps', None) \<Rightarrow> Ok (s\<lparr>heap := (heap s)[a := Phones ps']\<rparr>)
                    | (ps', Some e) \<Rightarrow> Raised e (s\<lparr>heap := (heap s)[a := Phones ps']\<rparr>))
               | _ \<Rightarrow> Raised AttributeError s)
          | _ \<Rightarrow> Raised AttributeError s))"

fun add_emails :: "string list \<Rightarrow> state \<Rightarrow> result" where
  "add_emails [] s = Ok s"
| "add_emails (e # es) s =
     and_then (call_on_first ''emails'' add_email (Inr e) s) (add_emails es)"

definition email_address :: "string list \<Rightarrow> state \<Rightarrow> result" where
  "email_address val s =
     and_then (ensure_container ''emails'' (Emails []) s) (add_emails val)"

subsection \<open>The lookup tables and the dispatch loop\<close>

text \<open>
  The three class attributes \<open>_handler\<close>, \<open>_attr\<close> and \<open>_ignore\<close>: two dict literals, as
  association lists with distinct keys, and a tuple.
\<close>

record config =
  handler :: "(string \<times> string) list"
  attr :: "(string \<times> string) list"
  ignore :: "string list"

type_synonym handler_method = "string list \<Rightarrow> state \<Rightarrow> result"

text \<open>
  \<open>method = getattr(self, self._handler[key]); method(value)\<close>. The handler methods take
  the value list. The other methods and the data attributes of the builder cannot be
  called with one argument (\<open>TypeError\<close>); any other name is not an attribute of the
  builder (\<open>AttributeError\<close>). Special attributes (\<open>__class__\<close> and the like) are not
  modelled: the tables of the classes name handler methods only.
\<close>

definition getattr_self :: "string \<Rightarrow> error + handler_method" where
  "getattr_self m =
     (if m = ''_contact_type'' then Inr contact_type
      else if m = ''_address'' then Inr address
      else if m = ''_comment'' then Inr comment
      else if m = ''_country_code'' then Inr country_code
      else if m = ''_phone_office'' then Inr phone_office
      else if m = ''_phone_mobile'' then Inr phone_mobile
      else if m = ''_phone_fax'' then Inr phone_fax
      else if m = ''_poc_admin'' then Inr poc_admin
      else if m = ''_poc_tech'' then Inr poc_tech
      else if m = ''_poc_abuse'' then Inr poc_abuse
      else if m = ''_poc_noc'' then Inr poc_noc
      else if m = ''_office_extension'' then Inr office_extension
      else if m = ''_email_address'' then Inr email_address
      else if m \<in> set [''run'', ''_assign'', ''_phone'', ''_poc'', ''_verify_attribute'',
                        ''_verify_class_dicts'', ''_handler'', ''_attr'', ''_ignore'',
                        ''source'', ''module'', ''payload'']
      then Inl TypeError
      else Inl AttributeError)"

text \<open>One iteration of the loop of \<open>run\<close>.\<close>

definition dispatch ::
  "(string \<Rightarrow> error + handler_method) \<Rightarrow> config \<Rightarrow> string \<Rightarrow> string list \<Rightarrow> state \<Rightarrow> result" where
  "dispatch getm cfg key val s =
     (case map_of (handler cfg) key of
        Some m \<Rightarrow> (case getm m of Inl e \<Rightarrow> Raised e s | Inr meth \<Rightarrow> meth val s)
      | None \<Rightarrow>
         (case map_of (attr cfg) key of
            Some a \<Rightarrow> assign a val s
          | None \<Rightarrow>
              if key \<in> set (ignore cfg) then Ok s
              else Raised (RegRwsError
                     (cls s @ '' has no attribute corresponding to key '' @ key)) s))"

text \<open>
  \<open>for key, value in self.source.iteritems()\<close>: the loop runs over the items of the source
  dict in the order in which \<open>iteritems()\<close> yields them. The list given to \<open>run_loop\<close> is
  that sequence.
\<close>

fun run_loop ::
  "(string \<Rightarrow> error + handler_method) \<Rightarrow> config \<Rightarrow> (string \<times> string list) list \<Rightarrow> state \<Rightarrow> result" where
  "run_loop getm cfg [] s = Ok s"
| "run_loop getm cfg ((key, val) # rest) s =
     and_then (dispatch getm cfg key val s) (run_loop getm cfg rest)"

text \<open>
  The dicts of Python 2 (the source calls \<open>iteritems\<close>) are hash tables: \<open>iteritems()\<close>
  yields every item once, in an order that the language leaves unspecified and that
  need not be the order of insertion. \<open>is_iteritems d xs\<close> says that \<open>xs\<close> is such a
  sequence for the dict \<open>d\<close>.
\<close>

definition is_iteritems :: "dict \<Rightarrow> (string \<times> string list) list \<Rightarrow> bool" where
  "is_iteritems d xs = (mset xs = mset d)"

text \<open>
  The builder object. \<open>source\<close> is the source dict as \<open>iteritems()\<close> yields it; \<open>payload\<close> is
  the payload with the store of its containers. \<open>__init__\<close> receives the instance that
  \<open>target()\<close> creates.
\<close>

record builder =
  source :: "(string \<times> string list) list"
  payload :: state

definition verify_class_dicts :: "config \<Rightarrow> error option" where
  "verify_class_dicts cfg =
     (if handler cfg = [] \<and> attr cfg = []
      then Some (NotImplementedError ''_handler or _attr must be populated in derived classes'')
      else None)"

definition init :: "config \<Rightarrow> (string \<times> string list) list \<Rightarrow> state \<Rightarrow> error + builder" where
  "init cfg src target =
     (case verify_class_dicts cfg of
        Some e \<Rightarrow> Inl e
      | None \<Rightarrow> Inr \<lparr>source = src, payload = target\<rparr>)"

definition run :: "config \<Rightarrow> builder \<Rightarrow> result" where
  "run cfg self = run_loop getattr_self cfg (source self) (payload self)"

text \<open>The tables of the class \<open>PayloadFromTemplateDict\<close>.\<close>

definition PayloadFromTemplateDict :: config where
  "PayloadFromTemplateDict =
     \<lparr>handler =
        [(''Contact Type (P or R)'', ''_contact_type''),
         (''Address'', ''_address''),
         (''Country Code'', ''_country_code''),
         (''Office Phone Number'', ''_phone_office''),
         (''Office Phone Number Extension'', ''_office_extension''),
         (''E-mail Address'', ''_email_address''),
         (''Mobile'', ''_phone_mobile''),
         (''Fax'', ''_phone_fax''),
         (''Public Comments'', ''_comment''),
         (''Org Address'', ''_address''),
         (''Org Country Code'', ''_country_code''),
         (''Admin POC Handle'', ''_poc_admin''),
         (''Tech POC Handle'', ''_poc_tech''),
         (''Abuse POC Handle'', ''_poc_abuse''),
         (''NOC POC Handle'', ''_poc_noc'')],
      attr =
        [(''Last Name or Role Account'', ''lastName''),
         (''First Name'', ''firstName''),
         (''Middle Name'', ''middleName''),
         (''Company Name'', ''companyName''),
         (''City'', ''city''),
         (''State/Province'', ''iso3166_2''),
         (''Postal Code'', ''postalCode''),
         (''Organization's Legal Name'', ''orgName''),
         (''Organization's D/B/A'', ''dbaName''),
         (''Business Tax ID Number (DO NOT LIST SSN)'', ''taxId''),
         (''Org City'', ''city''),
         (''Org State/Province'', ''iso3166_2''),
         (''Org Postal Code'', ''postalCode'')],
      ignore =
        [''API Key'',
         ''Registration Action (N,M, or R)'',
         ''Existing POC Handle'',
         ''Existing OrgID'',
         ''Referral Server'',
         ''Additional Information'']\<rparr>"

section \<open>The builder: class PayloadFromDict of src/regrws/payload/converter.py\<close>

text \<open>
  \<open>_address\<close> of this class counts the lines from 1: \<open>enumerate(value, 1)\<close>.
\<close>

definition PayloadFromDict_address :: "string list \<Rightarrow> state \<Rightarrow> result" where
  "PayloadFromDict_address val s =
     and_then (ensure_container ''streetAddress'' (StreetAddress []) s)
       (add_lines ''streetAddress'' (py_enumerate 1 val))"

text \<open>
  Modelled from the spec: the country reference \<open>pycountry.countries\<close>, an external
  library. Given an alpha-2 code, \<open>pycountry.countries.get(alpha2=...)\<close> returns alpha-2,
  alpha-3 and display name, or fails if the code is unrecognized (\<open>LookupFailure\<close>). The
  reference is a parameter of the model: a partial map from alpha-2 codes to entries.
\<close>

record country =
  alpha2 :: string
  alpha3 :: string
  country_name :: string

definition PayloadFromDict_country_code ::
  "(string \<Rightarrow> country option) \<Rightarrow> string list \<Rightarrow> state \<Rightarrow> result" where
  "PayloadFromDict_country_code countries val s =
     (case val of
        [] \<Rightarrow> Raised IndexError s
      | v # vs \<Rightarrow>
         (case countries v of
            None \<Rightarrow> Raised LookupFailure s
          | Some c \<Rightarrow>
              Ok (setattr s ''iso3166_1''
                    (PyList [Iso \<lparr>code2 = [alpha2 c], code3 = Some [alpha3 c],
                                  name = Some [country_name c]\<rparr>]))))"

definition PayloadFromDict_getattr ::
  "(string \<Rightarrow> country option) \<Rightarrow> string \<Rightarrow> error + handler_method" where
  "PayloadFromDict_getattr countries m =
     (if m = ''_contact_type'' then Inr contact_type
      else if m = ''_address'' then Inr PayloadFromDict_address
      else if m = ''_country_code'' then Inr (PayloadFromDict_country_code countries)
      else if m = ''_phone_office'' then Inr phone_office
      else if m = ''_phone_mobile'' then Inr phone_mobile
      else if m = ''_phone_fax'' then Inr phone_fax
      else if m = ''_office_extension'' then Inr office_extension
      else if m = ''_email_address'' then Inr email_address
      else if m \<in> set [''run'', ''_assign'', ''_phone'', ''_verify_attribute'',
                        ''handler'', ''simple'', ''ignore'', ''source'', ''module'', ''payload'']
      then Inl TypeError
      else Inl AttributeError)"

text \<open>The tables \<open>handler\<close>, \<open>simple\<close> and \<open>ignore\<close> of this class.\<close>

definition PayloadFromDict :: config where
  "PayloadFromDict =
     \<lparr>handler =
        [(''Contact Type (P or R)'', ''_contact_type''),
         (''Address'', ''_address''),
         (''Country Code'', ''_country_code''),
         (''Office Phone Number'', ''_phone_office''),
         (''Office Phone Number Extension'', ''_office_extension''),
         (''E-mail Address'', ''_email_address''),
         (''Mobile'', ''_phone_mobile''),
         (''Fax'', ''_phone_fax'')],
      attr =
        [(''Last Name or Role Account'', ''lastName''),
         (''First Name'', ''firstName''),
         (''Middle Name'', ''middleName''),
         (''Company Name'', ''companyName''),
         (''City'', ''city''),
         (''State/Province'', ''iso3166_2''),
         (''Postal Code'', ''postalCode'')],
      ignore =
        [''API Key'', ''Registration Action (N,M, or R)'',
         ''Existing POC Handle'', ''Public Comments'']\<rparr>"

definition PayloadFromDict_run ::
  "(string \<Rightarrow> country option) \<Rightarrow> builder \<Rightarrow> result" where
  "PayloadFromDict_run countries self =
     run_loop (PayloadFromDict_getattr countries) PayloadFromDict (source self) (payload self)"

section \<open>Observations on payloads and example inputs\<close>

text \<open>\<open>self.payload.<field>[0].line\<close>: the line entries of the container of a field.\<close>

definition lines_of_first :: "string \<Rightarrow> state \<Rightarrow> line list" where
  "lines_of_first field s =
     (case first_elem field s of
        Inl e \<Rightarrow> []
      | Inr el \<Rightarrow>
         (case el of
            Ref a \<Rightarrow>
              (case deref s a of
                 Some (StreetAddress ls) \<Rightarrow> ls
               | Some (Comment ls) \<Rightarrow> ls
               | _ \<Rightarrow> [])
          | _ \<Rightarrow> []))"

text \<open>
  The five attributes that hold a nested container, and for every object of the store
  the attribute whose handlers construct objects of its class.
\<close>

definition container_fields :: "string list" where
  "container_fields = [''streetAddress'', ''comment'', ''phones'', ''pocLinks'', ''emails'']"

fun kind :: "obj \<Rightarrow> string" where
  "kind (StreetAddress ls) = ''streetAddress''"
| "kind (Comment ls) = ''comment''"
| "kind (Phones ps) = ''phones''"
| "kind (PocLinks rs) = ''pocLinks''"
| "kind (Emails es) = ''emails''"

definition kinds :: "state \<Rightarrow> string list" where
  "kinds s = map kind (heap s)"

text \<open>The number of containers for a field that have been constructed so far.\<close>

definition created :: "string \<Rightarrow> state \<Rightarrow> nat" where
  "created f s = length (filter (\<lambda>k. k = f) (kinds s))"

text \<open>The attributes that the handler methods assign.\<close>

definition handler_fields :: "string list" where
  "handler_fields = ''contactType'' # ''iso3166_1'' # container_fields"

text \<open>
  An example of the instance that \<open>target()\<close> creates: a payload class that declares the
  attributes below, the list attributes empty, and no container constructed yet.
\<close>

definition example_payload :: state where
  "example_payload =
     \<lparr>cls = ''regrws.payload.poc.poc'',
      attrs = map_of
        [(''city'', PyList []), (''lastName'', PyList []), (''firstName'', PyList []),
         (''contactType'', PyList []), (''iso3166_1'', PyList []),
         (''streetAddress'', PyList []), (''comment'', PyList []), (''phones'', PyList []),
         (''pocLinks'', PyList []), (''emails'', PyList [])],
      heap = []\<rparr>"

text \<open>The attribute that each handler method reads and assigns.\<close>

definition handler_field :: "string \<Rightarrow> string" where
  "handler_field m =
     (if m = ''_contact_type'' then ''contactType''
      else if m = ''_address'' then ''streetAddress''
      else if m = ''_comment'' then ''comment''
      else if m = ''_country_code'' then ''iso3166_1''
      else if m \<in> set [''_phone_office'', ''_phone_mobile'', ''_phone_fax'', ''_office_extension'']
      then ''phones''
      else if m \<in> set [''_poc_admin'', ''_poc_tech'', ''_poc_abuse'', ''_poc_noc''] then ''pocLinks''
      else ''emails'')"

text \<open>
  Two summaries of what a handler call does to the payload. A handler of a container
  attribute \<open>g\<close> leaves the class and every other attribute alone, and either keeps the
  attributes and the classes of the stored objects, or finds \<open>g\<close> false, constructs one
  container for it and makes \<open>g\<close> the one-element list holding the new reference.
  A handler of another attribute \<open>g\<close> leaves the class, every other attribute and the store
  alone.
\<close>

definition lazy_step :: "string \<Rightarrow> state \<Rightarrow> state \<Rightarrow> bool" where
  "lazy_step g s s1 =
     (cls s1 = cls s \<and> (\<forall>a. a \<noteq> g \<longrightarrow> attrs s1 a = attrs s a)
      \<and> ((kinds s1 = kinds s \<and> attrs s1 = attrs s)
         \<or> ((\<exists>w. attrs s g = Some w \<and> falsy w)
             \<and> attrs s1 g = Some (PyList [Ref (length (heap s))])
             \<and> kinds s1 = kinds s @ [g])))"

definition plain_step :: "string \<Rightarrow> state \<Rightarrow> state \<Rightarrow> bool" where
  "plain_step g s s1 =
     (cls s1 = cls s \<and> (\<forall>a. a \<noteq> g \<longrightarrow> attrs s1 a = attrs s a) \<and> heap s1 = heap s)"

text \<open>
  What a stretch of a build does to the container attribute \<open>f\<close>: the store only grows, and
  either no container for \<open>f\<close> is constructed and \<open>f\<close> keeps its value, or \<open>f\<close> was false,
  exactly one container for it is constructed, and \<open>f\<close> ends as the one-element list that
  refers to it.
\<close>

definition build_ok :: "string \<Rightarrow> state \<Rightarrow> state \<Rightarrow> bool" where
  "build_ok f s s' =
     ((\<exists>ex. kinds s' = kinds s @ ex)
      \<and> ((created f s' = created f s \<and> attrs s' f = attrs s f)
         \<or> ((\<exists>w. attrs s f = Some w \<and> falsy w)
             \<and> created f s' = created f s + 1
             \<and> (\<exists>a. attrs s' f = Some (PyList [Ref a]) \<and> length (heap s) \<le> a
                    \<and> a < length (heap s') \<and> kind (heap s' ! a) = f))))"

text \<open>
  An example of a payload on which a mobile number has been stored: the phones container
  exists and holds one entry of type \<open>M\<close>.
\<close>

definition mobile_payload :: state where
  "mobile_payload =
     example_payload
       \<lparr>attrs := (attrs example_payload)(''phones'' \<mapsto> PyList [Ref 0]),
        heap := [Phones [\<lparr>number = [''555''], phone_type = [\<lparr>code = [''M'']\<rparr>],
                          extension = None\<rparr>]]\<rparr>"

text \<open>
  What the specification says each container handler adds, as a container of the same
  class holding only the new entries: the address and comment handlers one numbered line
  for each supplied line, the phone handlers one entry with the supplied number and the
  fixed type code, the point-of-contact handlers one link with the fixed function code and
  the first value, the email handler every supplied address.
\<close>

definition new_entries :: "string \<Rightarrow> string list \<Rightarrow> obj" where
  "new_entries m val =
     (if m = ''_address''
      then StreetAddress (map (\<lambda>(n, l). \<lparr>line_count = n, line_text = l\<rparr>) (py_enumerate 0 val))
      else if m = ''_comment''
      then Comment (map (\<lambda>(n, l). \<lparr>line_count = n, line_text = l\<rparr>) (py_enumerate 0 val))
      else if m = ''_phone_office''
      then Phones [\<lparr>number = val, phone_type = [\<lparr>code = [''O'']\<rparr>], extension = None\<rparr>]
      else if m = ''_phone_mobile''
      then Phones [\<lparr>number = val, phone_type = [\<lparr>code = [''M'']\<rparr>], extension = None\<rparr>]
      else if m = ''_phone_fax''
      then Phones [\<lparr>number = val, phone_type = [\<lparr>code = [''F'']\<rparr>], extension = None\<rparr>]
      else if m = ''_poc_admin''
      then PocLinks [\<lparr>poc_function = ''AD'', poc_handle = hd val\<rparr>]
      else if m = ''_poc_tech''
      then PocLinks [\<lparr>poc_function = ''T'', poc_handle = hd val\<rparr>]
      else if m = ''_poc_abuse''
      then PocLinks [\<lparr>poc_function = ''AB'', poc_handle = hd val\<rparr>]
      else if m = ''_poc_noc''
      then PocLinks [\<lparr>poc_function = ''N'', poc_handle = hd val\<rparr>]
      else Emails val)"

text \<open>The entries of the second container appended to those of the first, of the same class.\<close>

fun append_obj :: "obj \<Rightarrow> obj \<Rightarrow> obj" where
  "append_obj (StreetAddress xs) (StreetAddress ys) = StreetAddress (xs @ ys)"
| "append_obj (Comment xs) (Comment ys) = Comment (xs @ ys)"
| "append_obj (Phones xs) (Phones ys) = Phones (xs @ ys)"
| "append_obj (PocLinks xs) (PocLinks ys) = PocLinks (xs @ ys)"
| "append_obj (Emails xs) (Emails ys) = Emails (xs @ ys)"
| "append_obj ob new = ob"

text \<open>
  A call with result \<open>r\<close> from the payload \<open>s\<close> adds the entries \<open>new\<close> to the container of
  the attribute \<open>f\<close> lazily: when \<open>f\<close> is false, the call returns after constructing one
  container that holds exactly \<open>new\<close> and making \<open>f\<close> the one-element list that refers to it;
  when \<open>f\<close> refers to a container for \<open>f\<close>, the call returns after appending \<open>new\<close> to that
  container, with the attributes and the size of the store unchanged.
\<close>

definition lazily_adds :: "string \<Rightarrow> result \<Rightarrow> obj \<Rightarrow> state \<Rightarrow> bool" where
  "lazily_adds f r new s =
     ((\<forall>w. attrs s f = Some w \<and> falsy w \<longrightarrow>
          r = Ok (s\<lparr>attrs := (attrs s)(f \<mapsto> PyList [Ref (length (heap s))]),
                   heap := heap s @ [new]\<rparr>))
      \<and> (\<forall>a es. attrs s f = Some (PyList (Ref a # es)) \<and> a < length (heap s)
                \<and> kind (heap s ! a) = f \<longrightarrow>
          r = Ok (s\<lparr>heap := (heap s)[a := append_obj (heap s ! a) new]\<rparr>)))"

section \<open>Properties of the template parser\<close>

lemma try_colon_SomeD:
  assumes "try_colon s k = Some (g1, g2)"
  shows "g1 = take k s \<and> k < length s \<and> s ! k = CHR '':''
         \<and> g2 = takeWhile (\<lambda>c. c \<noteq> newline) (drop (Suc k) s)"
proof -
  from assms obtain c rest where d: "drop k s = c # rest"
    by (auto simp: try_colon_def split: list.splits)
  then have k: "k < length s" by (metis drop_eq_Nil leI list.distinct(1))
  from d k have c: "c = s ! k" by (metis Cons_nth_drop_Suc list.inject)
  from d k have r: "rest = drop (Suc k) s" by (metis Cons_nth_drop_Suc list.inject)
  from assms d c r k show ?thesis
    by (auto simp: try_colon_def split: if_splits)
qed

lemma try_colon_at_colon:
  assumes "k < length s" "s ! k = CHR '':''"
  shows "try_colon s k = Some (take k s, takeWhile (\<lambda>c. c \<noteq> newline) (drop (Suc k) s))"
  using assms by (simp add: try_colon_def Cons_nth_drop_Suc [symmetric])

lemma backtrack_SomeD:
  "backtrack s n = Some r \<Longrightarrow>
     \<exists>k\<le>n. try_colon s k = Some r \<and> (\<forall>m. k < m \<and> m \<le> n \<longrightarrow> try_colon s m = None)"
proof (induction n)
  case 0
  then show ?case by simp
next
  case (Suc n)
  show ?case
  proof (cases "try_colon s (Suc n)")
    case None
    with Suc.prems have "backtrack s n = Some r" by simp
    from Suc.IH [OF this] obtain k where k: "k \<le> n" "try_colon s k = Some r"
      "\<forall>m. k < m \<and> m \<le> n \<longrightarrow> try_colon s m = None" by blast
    have "\<forall>m. k < m \<and> m \<le> Suc n \<longrightarrow> try_colon s m = None"
      using k(3) None by (metis le_SucE)
    with k show ?thesis by (metis le_SucI)
  next
    case (Some a)
    with Suc.prems have "try_colon s (Suc n) = Some r" by simp
    then show ?thesis by auto
  qed
qed

lemma backtrack_skip:
  "k \<le> n \<Longrightarrow> (\<forall>m. k < m \<and> m \<le> n \<longrightarrow> try_colon s m = None) \<Longrightarrow> backtrack s n = backtrack s k"
proof (induction n)
  case 0
  then show ?case by simp
next
  case (Suc n)
  show ?case
  proof (cases "k = Suc n")
    case True
    then show ?thesis by simp
  next
    case False
    with Suc.prems have kn: "k \<le> n" by simp
    from Suc.prems(2) False kn have "try_colon s (Suc n) = None" by simp
    moreover have "backtrack s n = backtrack s k" using Suc.IH kn Suc.prems(2) by simp
    ultimately show ?thesis by simp
  qed
qed

lemma backtrack_at:
  "try_colon s k = Some r \<Longrightarrow> backtrack s k = Some r"
  by (cases k) simp_all

lemma take_le_takeWhile:
  "k \<le> length (takeWhile P s) \<Longrightarrow> \<forall>x\<in>set (take k s). P x"
proof -
  assume k: "k \<le> length (takeWhile P s)"
  have "take k s = take k (takeWhile P s @ dropWhile P s)" by simp
  also have "\<dots> = take k (takeWhile P s)" using k by (simp del: takeWhile_dropWhile_id)
  finally have "set (take k s) \<subseteq> set (takeWhile P s)" by (metis set_take_subset)
  then show ?thesis by (meson set_takeWhileD subsetD)
qed

lemma regex_match_shape:
  assumes m: "regex_match l = Some (g1, g2)"
  shows "\<exists>d1 d2 rest. l = d1 # d2 # CHR ''.'' # g1 @ '':'' @ g2 @ rest
           \<and> is_digit d1 \<and> is_digit d2 \<and> (rest = [] \<or> hd rest = newline)
           \<and> newline \<notin> set g1 \<and> newline \<notin> set g2 \<and> CHR '':'' \<notin> set g2"
proof -
  let ?P = "\<lambda>c. c \<noteq> newline"
  from m obtain d1 d2 s where l: "l = d1 # d2 # CHR ''.'' # s"
    and dg: "is_digit d1" "is_digit d2"
    and bt: "backtrack s (dot_star_max s) = Some (g1, g2)"
    by (auto simp: regex_match_def split: list.splits if_splits)
  from backtrack_SomeD [OF bt] obtain k where kn: "k \<le> dot_star_max s"
    and tc: "try_colon s k = Some (g1, g2)"
    and mx: "\<forall>m. k < m \<and> m \<le> dot_star_max s \<longrightarrow> try_colon s m = None" by blast
  from try_colon_SomeD [OF tc] have g1: "g1 = take k s" and kl: "k < length s"
    and sk: "s ! k = CHR '':''" and g2: "g2 = takeWhile ?P (drop (Suc k) s)" by simp_all
  define rest where "rest = dropWhile ?P (drop (Suc k) s)"
  have s: "s = g1 @ '':'' @ g2 @ rest"
    using id_take_nth_drop [OF kl] sk by (simp add: g1 g2 rest_def)
  have r: "rest = [] \<or> hd rest = newline"
    unfolding rest_def using hd_dropWhile [of ?P "drop (Suc k) s"] by blast
  have n1: "newline \<notin> set g1"
    using take_le_takeWhile [of k ?P s] kn by (auto simp: g1 dot_star_max_def)
  have n2: "newline \<notin> set g2"
    unfolding g2 by (auto dest: set_takeWhileD)
  have tw: "takeWhile ?P s = g1 @ '':'' @ g2"
  proof -
    have "takeWhile ?P rest = []" using r by (cases rest) auto
    moreover have "\<forall>x\<in>set (g1 @ '':'' @ g2). ?P x" using n1 n2 by (auto simp: newline_def)
    ultimately show ?thesis
      using takeWhile_append2 [of "g1 @ '':'' @ g2" ?P rest] s by simp
  qed
  have c2: "CHR '':'' \<notin> set g2"
  proof
    assume "CHR '':'' \<in> set g2"
    then obtain j where j: "j < length g2" "g2 ! j = CHR '':''" by (metis in_set_conv_nth)
    have lk: "length g1 = k" using kl by (simp add: g1)
    let ?m = "k + 1 + j"
    have ml: "?m < length s" using j lk by (subst s) simp
    have sm: "s ! ?m = CHR '':''" using j lk by (subst s) (simp add: nth_append)
    have "?m \<le> dot_star_max s"
      unfolding dot_star_max_def using arg_cong [OF tw, of length] j lk by simp
    with mx have "try_colon s ?m = None" by simp
    with try_colon_at_colon [OF ml sm] show False by simp
  qed
  from l s dg r n1 n2 c2 show ?thesis by auto
qed

lemma regex_match_intro:
  assumes dg: "is_digit d1" "is_digit d2"
    and c2: "CHR '':'' \<notin> set val"
    and n1: "newline \<notin> set lab" and n2: "newline \<notin> set val"
    and r: "rest = [] \<or> hd rest = newline"
  shows "regex_match (d1 # d2 # CHR ''.'' # lab @ '':'' @ val @ rest) = Some (lab, val)"
proof -
  let ?P = "\<lambda>c. c \<noteq> newline"
  let ?s = "lab @ '':'' @ val @ rest"
  let ?k = "length lab"
  have tr: "takeWhile ?P rest = []" using r by (cases rest) auto
  have "\<forall>x\<in>set (lab @ '':'' @ val). ?P x" using n1 n2 by (auto simp: newline_def)
  then have tw: "takeWhile ?P ?s = lab @ '':'' @ val"
    using takeWhile_append2 [of "lab @ '':'' @ val" ?P rest] tr by simp
  have N: "dot_star_max ?s = ?k + 1 + length val"
    unfolding dot_star_max_def using arg_cong [OF tw, of length] by simp
  have "takeWhile ?P (val @ rest) = val"
    using n2 tr by (subst takeWhile_append2) auto
  then have tk: "try_colon ?s ?k = Some (lab, val)"
    by (simp add: try_colon_def)
  have mx: "\<forall>m. ?k < m \<and> m \<le> dot_star_max ?s \<longrightarrow> try_colon ?s m = None"
  proof (intro allI impI)
    fix m assume m: "?k < m \<and> m \<le> dot_star_max ?s"
    then obtain i where i: "m = ?k + 1 + i" "i \<le> length val"
      using N by (metis Suc_eq_plus1 add.commute add_Suc_right less_iff_Suc_add nat_add_left_cancel_le add.assoc)
    have d: "drop m ?s = drop i val @ rest" using i by simp
    show "try_colon ?s m = None"
    proof (cases "i < length val")
      case True
      then have "drop i val = val ! i # drop (Suc i) val" by (simp add: Cons_nth_drop_Suc)
      moreover have "val ! i \<noteq> CHR '':''" using True c2 by (metis nth_mem)
      ultimately show ?thesis using d by (simp add: try_colon_def)
    next
      case False
      with i have "drop i val = []" by simp
      with d r show ?thesis
        by (cases rest) (auto simp: try_colon_def newline_def)
    qed
  qed
  have "backtrack ?s (dot_star_max ?s) = backtrack ?s ?k"
    by (rule backtrack_skip) (use N mx in simp_all)
  with backtrack_at [OF tk] dg show ?thesis
    by (simp add: regex_match_def)
qed

lemma map_of_append_value:
  "map_of (map (\<lambda>(k, vs). if k = key then (k, vs @ [v]) else (k, vs)) d) k =
     (if k = key then map_option (\<lambda>vs. vs @ [v]) (map_of d k) else map_of d k)"
  by (induction d) auto

lemma map_fst_append_value:
  "map (fst \<circ> (\<lambda>(k, vs). if k = key then (k, vs @ [v]) else (k, vs))) d = map fst d"
  by (induction d) auto

lemma map_of_process:
  "map_of (process m d) k =
     (if k = strip (fst m)
      then Some ((case map_of d k of None \<Rightarrow> [] | Some old \<Rightarrow> old) @ [strip (snd m)])
      else map_of d k)"
proof (cases "strip (fst m) \<in> set (map fst d)")
  case True
  then obtain old where "map_of d (strip (fst m)) = Some old"
    by (metis map_of_eq_None_iff not_Some_eq set_map)
  with True show ?thesis
    by (simp add: process_def Let_def map_of_append_value)
next
  case False
  then have "map_of d (strip (fst m)) = None" by (simp add: map_of_eq_None_iff)
  with False show ?thesis
    by (auto simp: process_def Let_def map_add_def split: option.splits)
qed

lemma distinct_process:
  "distinct (map fst d) \<Longrightarrow> distinct (map fst (process m d))"
  by (simp add: process_def Let_def map_fst_append_value)

lemma nonempty_process:
  "\<forall>(k, vs)\<in>set d. vs \<noteq> [] \<Longrightarrow> \<forall>(k, vs)\<in>set (process m d). vs \<noteq> []"
  by (auto simp: process_def Let_def split: if_splits)

lemma values_of_Cons:
  "values_of k (l # ls) =
     (case regex_match l of
        None \<Rightarrow> []
      | Some m \<Rightarrow> if strip (fst m) = k then [strip (snd m)] else []) @ values_of k ls"
  by (simp add: values_of_def)

lemma map_of_run_lines:
  "map_of (run_lines ls d) k =
     (case map_of d k of
        None \<Rightarrow> if values_of k ls = [] then None else Some (values_of k ls)
      | Some old \<Rightarrow> Some (old @ values_of k ls))"
proof (induction ls arbitrary: d)
  case Nil
  then show ?case by (simp add: values_of_def split: option.splits)
next
  case (Cons l ls)
  show ?case
  proof (cases "regex_match l")
    case None
    then show ?thesis using Cons.IH [of d] by (simp add: values_of_Cons split: option.splits)
  next
    case (Some m)
    then show ?thesis using Cons.IH [of "process m d"]
      by (auto simp: values_of_Cons map_of_process split: option.splits)
  qed
qed

lemma distinct_run_lines:
  "distinct (map fst d) \<Longrightarrow> distinct (map fst (run_lines ls d))"
  by (induction ls arbitrary: d) (auto simp: distinct_process split: option.splits)

lemma nonempty_run_lines:
  "\<forall>(k, vs)\<in>set d. vs \<noteq> [] \<Longrightarrow> \<forall>(k, vs)\<in>set (run_lines ls d). vs \<noteq> []"
proof (induction ls arbitrary: d)
  case Nil
  then show ?case by simp
next
  case (Cons l ls)
  show ?case
  proof (cases "regex_match l")
    case None
    then show ?thesis using Cons.IH [OF Cons.prems] by simp
  next
    case (Some m)
    then show ?thesis using Cons.IH [OF nonempty_process [OF Cons.prems, of m]] by simp
  qed
qed

lemma label_example:
  "DictFromTemplate_run (DictFromTemplate_init [''01.Label:a'', ''02.Label:b''])
     = [(''Label'', [''a'', ''b''])]"
  by (simp add: DictFromTemplate_run_def DictFromTemplate_init_def regex_match_def is_digit_def
      dot_star_max_def newline_def try_colon_def process_def strip_def is_space_def)

text \<open>
  Claim C8. For every sequence of template lines, the dict that \<open>run\<close> returns on a new
  parser object has distinct keys, associates every label with the list of the trimmed
  values of all matching lines carrying that label, in line order, has no entry for a label
  that no matching line carries, and holds no empty value list. In particular the lines
  \<open>01.Label:a\<close> and \<open>02.Label:b\<close> give \<open>['a', 'b']\<close> for \<open>Label\<close>.
\<close>

theorem C8_repeated_labels_accumulate:
  "distinct (map fst (DictFromTemplate_run (DictFromTemplate_init ls)))
   \<and> (\<forall>k. map_of (DictFromTemplate_run (DictFromTemplate_init ls)) k =
            (if values_of k ls = [] then None else Some (values_of k ls)))
   \<and> (\<forall>(k, vs)\<in>set (DictFromTemplate_run (DictFromTemplate_init ls)). vs \<noteq> [])
   \<and> DictFromTemplate_run (DictFromTemplate_init [''01.Label:a'', ''02.Label:b''])
        = [(''Label'', [''a'', ''b''])]"
proof -
  have r: "DictFromTemplate_run (DictFromTemplate_init ls) = run_lines ls []"
    by (simp add: DictFromTemplate_run_def DictFromTemplate_init_def)
  have "distinct (map fst (run_lines ls []))" by (rule distinct_run_lines) simp
  moreover have "\<forall>k. map_of (run_lines ls []) k =
            (if values_of k ls = [] then None else Some (values_of k ls))"
    by (simp add: map_of_run_lines)
  moreover have "\<forall>(k, vs)\<in>set (run_lines ls []). vs \<noteq> []"
    by (rule nonempty_run_lines) simp
  ultimately show ?thesis using label_example unfolding r by blast
qed

text \<open>
  The claim at a template of four lines, one of which does not match.
\<close>

theorem C8_witness:
  "map_of (DictFromTemplate_run (DictFromTemplate_init
      [''01.Label:a'', ''junk'', ''02.Other:x'', ''03.Label:b''])) ''Label'' = Some [''a'', ''b'']
   \<and> (''Other'', [''x'']) \<in> set (DictFromTemplate_run (DictFromTemplate_init
      [''01.Label:a'', ''junk'', ''02.Other:x'', ''03.Label:b'']))"
proof -
  have v: "values_of ''Label'' [''01.Label:a'', ''junk'', ''02.Other:x'', ''03.Label:b'']
             = [''a'', ''b'']"
    by (simp add: values_of_def regex_match_def is_digit_def
      dot_star_max_def newline_def try_colon_def strip_def is_space_def)
  have m: "(''Other'', [''x'']) \<in> set (DictFromTemplate_run (DictFromTemplate_init
      [''01.Label:a'', ''junk'', ''02.Other:x'', ''03.Label:b'']))"
    by (simp add: DictFromTemplate_run_def DictFromTemplate_init_def regex_match_def is_digit_def
      dot_star_max_def newline_def try_colon_def process_def strip_def is_space_def)
  from C8_repeated_labels_accumulate [of "[''01.Label:a'', ''junk'', ''02.Other:x'', ''03.Label:b'']"]
  show ?thesis using v m by simp
qed

text \<open>
  Claim C9. A line holds a line feed at most as its last character. For every such line
  that the expression matches, the first group is everything between the three-character
  prefix and a colon, the second group is everything after that colon up to the end of the
  line, and the second group holds no colon: the split is at the last colon. The parser
  stores the trimmed first group as the label and the trimmed second group as its value.
\<close>

theorem C9_split_at_last_colon:
  assumes "regex_match l = Some (g1, g2)" and "newline \<notin> set (butlast l)"
  shows "\<exists>d1 d2 eol. l = d1 # d2 # CHR ''.'' # g1 @ '':'' @ g2 @ eol
           \<and> is_digit d1 \<and> is_digit d2 \<and> (eol = [] \<or> eol = [newline])
           \<and> CHR '':'' \<notin> set g2
           \<and> DictFromTemplate_run (DictFromTemplate_init [l]) = [(strip g1, [strip g2])]"
proof -
  from regex_match_shape [OF assms(1)] obtain d1 d2 rest where
    l: "l = d1 # d2 # CHR ''.'' # g1 @ '':'' @ g2 @ rest"
    and dg: "is_digit d1" "is_digit d2" and r: "rest = [] \<or> hd rest = newline"
    and c2: "CHR '':'' \<notin> set g2" by blast
  have e: "rest = [] \<or> rest = [newline]"
  proof (cases rest)
    case Nil
    then show ?thesis by simp
  next
    case (Cons a as)
    with r have a: "a = newline" by simp
    have "as = []"
    proof (rule ccontr)
      assume "as \<noteq> []"
      then have "butlast l = d1 # d2 # CHR ''.'' # g1 @ '':'' @ g2 @ newline # butlast as"
        using l Cons a by (simp add: butlast_append)
      with assms(2) show False by simp
    qed
    with Cons a show ?thesis by simp
  qed
  have "DictFromTemplate_run (DictFromTemplate_init [l]) = [(strip g1, [strip g2])]"
    using assms(1)
    by (simp add: DictFromTemplate_run_def DictFromTemplate_init_def process_def)
  with l dg e c2 show ?thesis by blast
qed

text \<open>
  The claim at the line \<open>01.Office Phone:555-1234 ext:12\<close>.
\<close>

theorem C9_witness:
  "regex_match ''01.Office Phone:555-1234 ext:12'' = Some (''Office Phone:555-1234 ext'', ''12'')
   \<and> newline \<notin> set (butlast ''01.Office Phone:555-1234 ext:12'')
   \<and> DictFromTemplate_run (DictFromTemplate_init [''01.Office Phone:555-1234 ext:12''])
       = [(''Office Phone:555-1234 ext'', [''12''])]"
proof -
  have m: "regex_match ''01.Office Phone:555-1234 ext:12''
             = Some (''Office Phone:555-1234 ext'', ''12'')"
    by (simp add: regex_match_def is_digit_def dot_star_max_def newline_def try_colon_def)
  have n: "newline \<notin> set (butlast ''01.Office Phone:555-1234 ext:12'')"
    by (simp add: newline_def)
  have s: "strip ''Office Phone:555-1234 ext'' = ''Office Phone:555-1234 ext''" "strip ''12'' = ''12''"
    by (simp_all add: strip_def is_space_def)
  from C9_split_at_last_colon [OF m n] show ?thesis using m n s by auto
qed

section \<open>Properties of the builder\<close>

lemma and_then_Ok [simp]: "and_then (Ok s) f = f s"
  by (simp add: and_then_def)

lemma and_then_Raised [simp]: "and_then (Raised e s) f = Raised e s"
  by (simp add: and_then_def)

lemma run_loop_append:
  "run_loop getm cfg (xs @ ys) s = and_then (run_loop getm cfg xs s) (run_loop getm cfg ys)"
proof (induction xs arbitrary: s)
  case Nil
  then show ?case by simp
next
  case (Cons x xs)
  obtain k v where x: "x = (k, v)" by (cases x)
  show ?case
    by (cases "dispatch getm cfg k v s") (simp_all add: x Cons.IH)
qed

lemma verify_attribute_undeclared:
  "attrs s a = None \<or> attrs s a = Some PyNone \<Longrightarrow>
     verify_attribute a s = Raised (RegRwsError (cls s @ '' does not have attribute '' @ a)) s"
  by (auto simp: verify_attribute_def getattr_default_def)

lemma verify_attribute_declared:
  "attrs s a = Some v \<Longrightarrow> v \<noteq> PyNone \<Longrightarrow> verify_attribute a s = Ok s"
  by (simp add: verify_attribute_def getattr_default_def)

text \<open>
  Claim C5. A key without handler that the scalar table maps to an attribute is dispatched
  to \<open>_assign\<close>, which checks the attribute before it assigns. When the payload does not
  declare the attribute, or holds \<open>None\<close> for it, the step raises the error whose message
  names the payload class and the attribute, and the payload is the one the step started
  from. Otherwise the step returns with the value list assigned.
\<close>

theorem C5_attribute_checked_before_assignment:
  assumes "map_of (handler cfg) key = None" and "map_of (attr cfg) key = Some a"
  shows "(attrs s a = None \<or> attrs s a = Some PyNone \<longrightarrow>
            assign a val s = Raised (RegRwsError (cls s @ '' does not have attribute '' @ a)) s
          \<and> dispatch getm cfg key val s
              = Raised (RegRwsError (cls s @ '' does not have attribute '' @ a)) s)
       \<and> (\<forall>v. attrs s a = Some v \<and> v \<noteq> PyNone \<longrightarrow>
            dispatch getm cfg key val s = Ok (setattr s a (PyList (map Str val))))"
  using assms
  by (auto simp: dispatch_def assign_def verify_attribute_undeclared verify_attribute_declared)

text \<open>
  The claim at the tables of \<open>PayloadFromTemplateDict\<close>: the example payload does not declare
  \<open>postalCode\<close> and declares \<open>city\<close>.
\<close>

theorem C5_witness:
  "map_of (handler PayloadFromTemplateDict) ''Postal Code'' = None
   \<and> map_of (attr PayloadFromTemplateDict) ''Postal Code'' = Some ''postalCode''
   \<and> attrs example_payload ''postalCode'' = None
   \<and> dispatch getattr_self PayloadFromTemplateDict ''Postal Code'' [''12345''] example_payload
       = Raised (RegRwsError ''regrws.payload.poc.poc does not have attribute postalCode'')
           example_payload
   \<and> attrs example_payload ''city'' = Some (PyList [])
   \<and> dispatch getattr_self PayloadFromTemplateDict ''City'' [''Reston''] example_payload
       = Ok (setattr example_payload ''city'' (PyList [Str ''Reston'']))"
proof -
  have h: "map_of (handler PayloadFromTemplateDict) ''Postal Code'' = None"
    by (simp add: PayloadFromTemplateDict_def)
  have a: "map_of (attr PayloadFromTemplateDict) ''Postal Code'' = Some ''postalCode''"
    by (simp add: PayloadFromTemplateDict_def)
  have h': "map_of (handler PayloadFromTemplateDict) ''City'' = None"
    by (simp add: PayloadFromTemplateDict_def)
  have a': "map_of (attr PayloadFromTemplateDict) ''City'' = Some ''city''"
    by (simp add: PayloadFromTemplateDict_def)
  have u: "attrs example_payload ''postalCode'' = None" by (simp add: example_payload_def)
  have d: "attrs example_payload ''city'' = Some (PyList [])" by (simp add: example_payload_def)
  have c: "cls example_payload = ''regrws.payload.poc.poc''" by (simp add: example_payload_def)
  from C5_attribute_checked_before_assignment
         [OF h a, of example_payload "[''12345'']" getattr_self]
       C5_attribute_checked_before_assignment
         [OF h' a', of example_payload "[''Reston'']" getattr_self]
  show ?thesis using h a u d c by simp
qed

text \<open>
  Claim C7. On a payload that declares \<open>contactType\<close>, the contact-type handler (the same
  text in both converters) turns \<open>['P']\<close> into \<open>['PERSON']\<close> and \<open>['R']\<close> into \<open>['ROLE']\<close>; for
  every other value list it returns normally and leaves the payload as it was.
\<close>

theorem C7_contact_type:
  assumes "attrs s ''contactType'' = Some v" and "v \<noteq> PyNone"
  shows "contact_type [''P''] s = Ok (setattr s ''contactType'' (PyList [Str ''PERSON'']))
       \<and> contact_type [''R''] s = Ok (setattr s ''contactType'' (PyList [Str ''ROLE'']))
       \<and> (val \<noteq> [''P''] \<and> val \<noteq> [''R''] \<longrightarrow> contact_type val s = Ok s)"
  using assms by (simp add: contact_type_def verify_attribute_declared)

text \<open>
  The claim at the example payload, with \<open>['X']\<close> as the other value list.
\<close>

theorem C7_witness:
  "attrs example_payload ''contactType'' = Some (PyList []) \<and> PyList [] \<noteq> PyNone
   \<and> attrs (state_of (contact_type [''P''] example_payload)) ''contactType'' = Some (PyList [Str ''PERSON''])
   \<and> attrs (state_of (contact_type [''R''] example_payload)) ''contactType'' = Some (PyList [Str ''ROLE''])
   \<and> contact_type [''X''] example_payload = Ok example_payload
   \<and> attrs example_payload ''contactType'' = Some (PyList [])"
proof -
  have d: "attrs example_payload ''contactType'' = Some (PyList [])" by (simp add: example_payload_def)
  have n: "PyList [] \<noteq> PyNone" by simp
  from C7_contact_type [OF d n, of "[''X'']"] show ?thesis using d by (simp add: setattr_def)
qed

text \<open>
  Claim C4, as amended. Let a key be neither in the handler table nor in the scalar table.
  If it is not in the ignore set either, then a run whose loop reaches it (the items
  yielded before it are dispatched without error) raises the error whose message names the
  payload class and the key; of several such keys the run names the one it reaches first,
  and a source that holds such a key never lets the run return. If the key is in the ignore
  set, its step returns with the payload unchanged, and the run
  is the run on the source without that item. This holds for the loop of both converters,
  whatever the tables and the handler methods are.
\<close>

theorem C4_unknown_key_raises_ignored_key_skipped:
  assumes "map_of (handler cfg) k = None" and "map_of (attr cfg) k = None"
  shows "(k \<notin> set (ignore cfg) \<and> run_loop getm cfg pre s = Ok s' \<longrightarrow>
            run_loop getm cfg (pre @ (k, v) # post) s
              = Raised (RegRwsError (cls s' @ '' has no attribute corresponding to key '' @ k)) s')
       \<and> (k \<in> set (ignore cfg) \<longrightarrow>
            dispatch getm cfg k v s = Ok s
          \<and> run_loop getm cfg (pre @ (k, v) # post) s = run_loop getm cfg (pre @ post) s)
       \<and> (k \<notin> set (ignore cfg) \<and> (k, v) \<in> set src \<longrightarrow>
            \<not> is_ok (run_loop getm cfg src s))"
proof -
  have d: "\<And>t. dispatch getm cfg k v t =
      (if k \<in> set (ignore cfg) then Ok t
       else Raised (RegRwsError (cls t @ '' has no attribute corresponding to key '' @ k)) t)"
    using assms by (simp add: dispatch_def)
  have "run_loop getm cfg (pre @ (k, v) # post) s
          = and_then (run_loop getm cfg pre s) (run_loop getm cfg ((k, v) # post))"
    by (rule run_loop_append)
  moreover have "run_loop getm cfg (pre @ post) s
          = and_then (run_loop getm cfg pre s) (run_loop getm cfg post)"
    by (rule run_loop_append)
  ultimately have first: "(k \<notin> set (ignore cfg) \<and> run_loop getm cfg pre s = Ok s' \<longrightarrow>
            run_loop getm cfg (pre @ (k, v) # post) s
              = Raised (RegRwsError (cls s' @ '' has no attribute corresponding to key '' @ k)) s')
       \<and> (k \<in> set (ignore cfg) \<longrightarrow>
            dispatch getm cfg k v s = Ok s
          \<and> run_loop getm cfg (pre @ (k, v) # post) s = run_loop getm cfg (pre @ post) s)"
    by (cases "run_loop getm cfg pre s") (simp_all add: d)
  have fails: "\<not> is_ok (run_loop getm cfg src s)"
    if "k \<notin> set (ignore cfg)" and "(k, v) \<in> set src"
  proof -
    from split_list [OF that(2)] obtain xs ys where src: "src = xs @ (k, v) # ys" by blast
    have "run_loop getm cfg src s
            = and_then (run_loop getm cfg xs s) (run_loop getm cfg ((k, v) # ys))"
      unfolding src by (rule run_loop_append)
    then show ?thesis
      using that(1) by (cases "run_loop getm cfg xs s") (simp_all add: d)
  qed
  from first fails show ?thesis by blast
qed

text \<open>
  The amended claim at the tables of \<open>PayloadFromTemplateDict\<close>, for the unknown key \<open>Bogus\<close>
  and the ignored key \<open>API Key\<close>.
\<close>

theorem C4_witness:
  "map_of (handler PayloadFromTemplateDict) ''Bogus'' = None
   \<and> map_of (attr PayloadFromTemplateDict) ''Bogus'' = None
   \<and> ''Bogus'' \<notin> set (ignore PayloadFromTemplateDict)
   \<and> run_loop getattr_self PayloadFromTemplateDict [(''City'', [''A''])] example_payload
        = Ok (setattr example_payload ''city'' (PyList [Str ''A'']))
   \<and> run PayloadFromTemplateDict
        \<lparr>source = [(''City'', [''A'']), (''Bogus'', [''x'']), (''First Name'', [''F''])],
         payload = example_payload\<rparr>
        = Raised (RegRwsError ''regrws.payload.poc.poc has no attribute corresponding to key Bogus'')
            (setattr example_payload ''city'' (PyList [Str ''A'']))
   \<and> ''API Key'' \<in> set (ignore PayloadFromTemplateDict)
   \<and> dispatch getattr_self PayloadFromTemplateDict ''API Key'' [''secret''] example_payload
        = Ok example_payload
   \<and> run PayloadFromTemplateDict
        \<lparr>source = [(''City'', [''A'']), (''API Key'', [''secret'']), (''First Name'', [''F''])],
         payload = example_payload\<rparr>
        = run PayloadFromTemplateDict
            \<lparr>source = [(''City'', [''A'']), (''First Name'', [''F''])], payload = example_payload\<rparr>"
proof -
  have h: "map_of (handler PayloadFromTemplateDict) ''Bogus'' = None"
    by (simp add: PayloadFromTemplateDict_def)
  have a: "map_of (attr PayloadFromTemplateDict) ''Bogus'' = None"
    by (simp add: PayloadFromTemplateDict_def)
  have i: "''Bogus'' \<notin> set (ignore PayloadFromTemplateDict)"
    by (simp add: PayloadFromTemplateDict_def)
  have h': "map_of (handler PayloadFromTemplateDict) ''API Key'' = None"
    by (simp add: PayloadFromTemplateDict_def)
  have a': "map_of (attr PayloadFromTemplateDict) ''API Key'' = None"
    by (simp add: PayloadFromTemplateDict_def)
  have i': "''API Key'' \<in> set (ignore PayloadFromTemplateDict)"
    by (simp add: PayloadFromTemplateDict_def)
  have p: "run_loop getattr_self PayloadFromTemplateDict [(''City'', [''A''])] example_payload
        = Ok (setattr example_payload ''city'' (PyList [Str ''A'']))"
    by (simp add: dispatch_def PayloadFromTemplateDict_def assign_def verify_attribute_def
        getattr_default_def example_payload_def)
  have c: "cls (setattr example_payload ''city'' (PyList [Str ''A''])) = ''regrws.payload.poc.poc''"
    by (simp add: setattr_def example_payload_def)
  from C4_unknown_key_raises_ignored_key_skipped
         [OF h a, of getattr_self "[(''City'', [''A''])]" example_payload
            "setattr example_payload ''city'' (PyList [Str ''A''])" "[''x'']"
            "[(''First Name'', [''F''])]"]
       C4_unknown_key_raises_ignored_key_skipped
         [OF h' a', of getattr_self "[(''City'', [''A''])]" example_payload
            "setattr example_payload ''city'' (PyList [Str ''A''])" "[''secret'']"
            "[(''First Name'', [''F''])]"]
  show ?thesis using h a i i' p c by (simp add: run_def)
qed

lemma length_py_enumerate [simp]: "length (py_enumerate n xs) = length xs"
  by (induction xs arbitrary: n) simp_all

lemma nth_py_enumerate:
  "j < length xs \<Longrightarrow> py_enumerate n xs ! j = (n + int j, xs ! j)"
proof (induction xs arbitrary: n j)
  case Nil
  then show ?case by simp
next
  case (Cons x xs)
  then show ?case by (cases j) simp_all
qed

lemma call_add_line_street:
  assumes "attrs s f = Some (PyList (Ref a # es))" and "a < length (heap s)"
    and "heap s ! a = StreetAddress ls"
  shows "call_on_first f add_line (Inr l) s = Ok (s\<lparr>heap := (heap s)[a := StreetAddress (ls @ [l])]\<rparr>)"
  using assms by (simp add: call_on_first_def first_elem_def deref_def add_line_def)

lemma add_lines_street:
  assumes "attrs s f = Some (PyList (Ref a # es))" and "a < length (heap s)"
    and "heap s ! a = StreetAddress ls"
  shows "add_lines f xs s =
     Ok (s\<lparr>heap := (heap s)[a := StreetAddress
            (ls @ map (\<lambda>(n, l). \<lparr>line_count = n, line_text = l\<rparr>) xs)]\<rparr>)"
  using assms
proof (induction xs arbitrary: s ls)
  case Nil
  then have "(heap s)[a := StreetAddress ls] = heap s" by (metis list_update_id)
  then show ?case by simp
next
  case (Cons x xs)
  obtain n l where x: "x = (n, l)" by (cases x)
  let ?s1 = "s\<lparr>heap := (heap s)[a := StreetAddress (ls @ [\<lparr>line_count = n, line_text = l\<rparr>])]\<rparr>"
  have c: "call_on_first f add_line (Inr \<lparr>line_count = n, line_text = l\<rparr>) s = Ok ?s1"
    using Cons.prems by (rule call_add_line_street)
  have "add_lines f xs ?s1 =
     Ok (?s1\<lparr>heap := (heap ?s1)[a := StreetAddress
            ((ls @ [\<lparr>line_count = n, line_text = l\<rparr>])
               @ map (\<lambda>(n, l). \<lparr>line_count = n, line_text = l\<rparr>) xs)]\<rparr>)"
    by (rule Cons.IH) (use Cons.prems in simp_all)
  then show ?case by (simp add: x c)
qed

lemma street_lines_result:
  assumes "attrs s ''streetAddress'' = Some v"
    and "falsy v \<or> (\<exists>a es ls. v = PyList (Ref a # es) \<and> a < length (heap s)
                       \<and> heap s ! a = StreetAddress ls)"
  shows "\<exists>s'. and_then (ensure_container ''streetAddress'' (StreetAddress []) s)
                 (add_lines ''streetAddress'' xs) = Ok s'
           \<and> lines_of_first ''streetAddress'' s' =
               (if falsy v then [] else lines_of_first ''streetAddress'' s)
                 @ map (\<lambda>(n, l). \<lparr>line_count = n, line_text = l\<rparr>) xs"
proof (cases "falsy v")
  case True
  let ?s1 = "s\<lparr>attrs := (attrs s)(''streetAddress'' \<mapsto> PyList [Ref (length (heap s))]),
                heap := heap s @ [StreetAddress []]\<rparr>"
  have e: "ensure_container ''streetAddress'' (StreetAddress []) s = Ok ?s1"
    using assms(1) True by (simp add: ensure_container_def)
  have "add_lines ''streetAddress'' xs ?s1 =
     Ok (?s1\<lparr>heap := (heap ?s1)[length (heap s) := StreetAddress
            ([] @ map (\<lambda>(n, l). \<lparr>line_count = n, line_text = l\<rparr>) xs)]\<rparr>)"
    by (rule add_lines_street [where es = "[]"]) simp_all
  with e True show ?thesis
    by (simp add: lines_of_first_def first_elem_def deref_def)
next
  case False
  with assms(2) obtain a es ls where v: "v = PyList (Ref a # es)" and a: "a < length (heap s)"
    and h: "heap s ! a = StreetAddress ls" by blast
  have e: "ensure_container ''streetAddress'' (StreetAddress []) s = Ok s"
    using assms(1) False by (simp add: ensure_container_def)
  have "add_lines ''streetAddress'' xs s =
     Ok (s\<lparr>heap := (heap s)[a := StreetAddress
            (ls @ map (\<lambda>(n, l). \<lparr>line_count = n, line_text = l\<rparr>) xs)]\<rparr>)"
    using assms(1) a h unfolding v by (rule add_lines_street)
  with e False assms(1) v a h show ?thesis
    by (simp add: lines_of_first_def first_elem_def deref_def)
qed

text \<open>
  Claim C10. On a payload whose \<open>streetAddress\<close> attribute is false or refers to a street
  address container, and for a value list that is not empty, both address handlers return
  normally; the handler of src/regrws/convert.py appends the lines numbered from 0, the
  handler of src/regrws/payload/converter.py appends them numbered from 1, and the two
  results differ.
\<close>

theorem C10_address_numbering_differs:
  assumes "attrs s ''streetAddress'' = Some v"
    and "falsy v \<or> (\<exists>a es ls. v = PyList (Ref a # es) \<and> a < length (heap s)
                       \<and> heap s ! a = StreetAddress ls)"
    and "val \<noteq> []"
  shows "is_ok (address val s) \<and> is_ok (PayloadFromDict_address val s)
       \<and> lines_of_first ''streetAddress'' (state_of (address val s)) =
           (if falsy v then [] else lines_of_first ''streetAddress'' s)
             @ map (\<lambda>(n, l). \<lparr>line_count = n, line_text = l\<rparr>) (py_enumerate 0 val)
       \<and> lines_of_first ''streetAddress'' (state_of (PayloadFromDict_address val s)) =
           (if falsy v then [] else lines_of_first ''streetAddress'' s)
             @ map (\<lambda>(n, l). \<lparr>line_count = n, line_text = l\<rparr>) (py_enumerate 1 val)
       \<and> (\<forall>j<length val. py_enumerate 0 val ! j = (int j, val ! j)
                           \<and> py_enumerate 1 val ! j = (int j + 1, val ! j))
       \<and> address val s \<noteq> PayloadFromDict_address val s"
proof -
  let ?old = "if falsy v then [] else lines_of_first ''streetAddress'' s"
  let ?mk = "\<lambda>(n, l). \<lparr>line_count = n, line_text = l\<rparr>"
  from street_lines_result [OF assms(1,2), of "py_enumerate 0 val"]
  obtain s0 where a0: "address val s = Ok s0"
    and l0: "lines_of_first ''streetAddress'' s0 = ?old @ map ?mk (py_enumerate 0 val)"
    unfolding address_def by blast
  from street_lines_result [OF assms(1,2), of "py_enumerate 1 val"]
  obtain s1 where a1: "PayloadFromDict_address val s = Ok s1"
    and l1: "lines_of_first ''streetAddress'' s1 = ?old @ map ?mk (py_enumerate 1 val)"
    unfolding PayloadFromDict_address_def by blast
  have n: "\<forall>j<length val. py_enumerate 0 val ! j = (int j, val ! j)
                           \<and> py_enumerate 1 val ! j = (int j + 1, val ! j)"
    by (simp add: nth_py_enumerate)
  obtain x xs where val: "val = x # xs" using assms(3) by (cases val) auto
  have "map ?mk (py_enumerate 0 val) \<noteq> map ?mk (py_enumerate 1 val)"
    by (simp add: val)
  with l0 l1 have "s0 \<noteq> s1" by auto
  with a0 a1 l0 l1 n show ?thesis by simp
qed

text \<open>
  The claim at the example payload and the address of two lines.
\<close>

theorem C10_witness:
  "attrs example_payload ''streetAddress'' = Some (PyList []) \<and> falsy (PyList [])
   \<and> [''123 Main St'', ''Suite 2''] \<noteq> []
   \<and> lines_of_first ''streetAddress'' (state_of (address [''123 Main St'', ''Suite 2''] example_payload))
       = [\<lparr>line_count = 0, line_text = ''123 Main St''\<rparr>, \<lparr>line_count = 1, line_text = ''Suite 2''\<rparr>]
   \<and> lines_of_first ''streetAddress''
        (state_of (PayloadFromDict_address [''123 Main St'', ''Suite 2''] example_payload))
       = [\<lparr>line_count = 1, line_text = ''123 Main St''\<rparr>, \<lparr>line_count = 2, line_text = ''Suite 2''\<rparr>]
   \<and> address [''123 Main St'', ''Suite 2''] example_payload
       \<noteq> PayloadFromDict_address [''123 Main St'', ''Suite 2''] example_payload"
proof -
  have d: "attrs example_payload ''streetAddress'' = Some (PyList [])"
    by (simp add: example_payload_def)
  have f: "falsy (PyList []) \<or> (\<exists>a es ls. PyList [] = PyList (Ref a # es)
             \<and> a < length (heap example_payload) \<and> heap example_payload ! a = StreetAddress ls)"
    by (simp add: falsy_def)
  have n: "[''123 Main St'', ''Suite 2''] \<noteq> []" by simp
  from C10_address_numbering_differs [OF d f n] show ?thesis
    using d by (simp add: falsy_def)
qed

text \<open>
  With a country reference that resolves nothing, the handler of
  src/regrws/payload/converter.py raises for the code \<open>ZZ\<close>, while the run of
  src/regrws/convert.py on the key \<open>Country Code\<close> returns normally with a country object
  stored in \<open>iso3166_1\<close>.
\<close>

theorem C3_counterexample:
  "PayloadFromDict_country_code (\<lambda>c. None) [''ZZ''] example_payload
      = Raised LookupFailure example_payload
   \<and> run PayloadFromTemplateDict \<lparr>source = [(''Country Code'', [''ZZ''])], payload = example_payload\<rparr>
      = Ok (setattr example_payload ''iso3166_1''
              (PyList [Iso \<lparr>code2 = [''ZZ''], code3 = None, name = None\<rparr>]))"
  by (simp add: PayloadFromDict_country_code_def run_def dispatch_def PayloadFromTemplateDict_def
      getattr_self_def country_code_def)

text \<open>
  Claim C3, as amended. The country-code handler of src/regrws/payload/converter.py looks
  the first element of the value list up in the country reference: when the reference
  cannot resolve it, the handler raises the lookup failure and leaves the payload as it
  was; when it can, the handler stores a country object with the alpha-2 code, the alpha-3
  code and the name. The country-code handler of src/regrws/convert.py consults no
  reference: for every value list it returns normally and stores a country object whose
  \<open>code2\<close> is the value list.
\<close>

theorem C3_country_code_lookup:
  "(countries v = None \<longrightarrow>
      PayloadFromDict_country_code countries (v # vs) s = Raised LookupFailure s)
   \<and> (\<forall>c. countries v = Some c \<longrightarrow>
      PayloadFromDict_country_code countries (v # vs) s =
        Ok (setattr s ''iso3166_1''
              (PyList [Iso \<lparr>code2 = [alpha2 c], code3 = Some [alpha3 c],
                            name = Some [country_name c]\<rparr>])))
   \<and> country_code val s =
        Ok (setattr s ''iso3166_1'' (PyList [Iso \<lparr>code2 = val, code3 = None, name = None\<rparr>]))"
  by (simp add: PayloadFromDict_country_code_def country_code_def)

text \<open>
  The amended claim at a reference that knows \<open>DE\<close> only.
\<close>

theorem C3_witness:
  "(\<lambda>c. if c = ''DE'' then Some \<lparr>alpha2 = ''DE'', alpha3 = ''DEU'', country_name = ''Germany''\<rparr>
         else None) ''ZZ'' = None
   \<and> PayloadFromDict_country_code
        (\<lambda>c. if c = ''DE'' then Some \<lparr>alpha2 = ''DE'', alpha3 = ''DEU'', country_name = ''Germany''\<rparr>
              else None) [''ZZ''] example_payload = Raised LookupFailure example_payload
   \<and> attrs (state_of (PayloadFromDict_country_code
        (\<lambda>c. if c = ''DE'' then Some \<lparr>alpha2 = ''DE'', alpha3 = ''DEU'', country_name = ''Germany''\<rparr>
              else None) [''DE''] example_payload)) ''iso3166_1''
       = Some (PyList [Iso \<lparr>code2 = [''DE''], code3 = Some [''DEU''], name = Some [''Germany'']\<rparr>])"
  using C3_country_code_lookup [of "\<lambda>c. if c = ''DE''
          then Some \<lparr>alpha2 = ''DE'', alpha3 = ''DEU'', country_name = ''Germany''\<rparr> else None"
        "''ZZ''" "[]" example_payload "[]"]
    C3_country_code_lookup [of "\<lambda>c. if c = ''DE''
          then Some \<lparr>alpha2 = ''DE'', alpha3 = ''DEU'', country_name = ''Germany''\<rparr> else None"
        "''DE''" "[]" example_payload "[]"]
  by (simp add: setattr_def)

lemma kinds_update:
  assumes "a < length (heap s)" and "kind ob = kind (heap s ! a)"
  shows "kinds (s\<lparr>heap := (heap s)[a := ob]\<rparr>) = kinds s"
proof -
  have "(map kind (heap s))[a := kind ob] = map kind (heap s)"
    using assms by (metis list_update_id nth_map)
  then show ?thesis by (simp add: kinds_def map_update)
qed

lemma add_line_kind: "add_line ob = Some fn \<Longrightarrow> kind (fn x) = kind ob"
  by (auto simp: add_line_def split: obj.splits)

lemma add_phone_kind: "add_phone ob = Some fn \<Longrightarrow> kind (fn x) = kind ob"
  by (auto simp: add_phone_def split: obj.splits)

lemma add_pocLinkRef_kind: "add_pocLinkRef ob = Some fn \<Longrightarrow> kind (fn x) = kind ob"
  by (auto simp: add_pocLinkRef_def split: obj.splits)

lemma add_email_kind: "add_email ob = Some fn \<Longrightarrow> kind (fn x) = kind ob"
  by (auto simp: add_email_def split: obj.splits)

lemma call_on_first_frame:
  assumes "\<And>ob fn x. meth ob = Some fn \<Longrightarrow> kind (fn x) = kind ob"
  shows "attrs (state_of (call_on_first g meth arg s)) = attrs s
       \<and> cls (state_of (call_on_first g meth arg s)) = cls s
       \<and> kinds (state_of (call_on_first g meth arg s)) = kinds s"
proof (cases "first_elem g s")
  case (Inl e)
  then show ?thesis by (simp add: call_on_first_def)
next
  case (Inr el)
  show ?thesis
  proof (cases el)
    case (Ref a)
    show ?thesis
    proof (cases "deref s a")
      case None
      with Inr Ref show ?thesis by (simp add: call_on_first_def)
    next
      case (Some ob)
      then have a: "a < length (heap s)" and ob: "ob = heap s ! a"
        by (auto simp: deref_def split: if_splits)
      show ?thesis
      proof (cases "meth ob")
        case None
        with Inr Ref Some show ?thesis by (simp add: call_on_first_def)
      next
        case (Some fn)
        note fn = this
        show ?thesis
        proof (cases arg)
          case (Inl e)
          with Inr Ref \<open>deref s a = Some ob\<close> fn show ?thesis by (simp add: call_on_first_def)
        next
          case (Inr x)
          have "kind (fn x) = kind (heap s ! a)" using assms [OF fn] ob by simp
          from kinds_update [OF a this] \<open>first_elem g s = Inr el\<close> Ref \<open>deref s a = Some ob\<close> fn Inr
          show ?thesis by (simp add: call_on_first_def)
        qed
      qed
    qed
  qed (use Inr in \<open>simp_all add: call_on_first_def\<close>)
qed

lemma add_lines_frame:
  "attrs (state_of (add_lines g xs s)) = attrs s
   \<and> cls (state_of (add_lines g xs s)) = cls s
   \<and> kinds (state_of (add_lines g xs s)) = kinds s"
proof (induction xs arbitrary: s)
  case Nil
  then show ?case by simp
next
  case (Cons x xs)
  obtain n l where x: "x = (n, l)" by (cases x)
  let ?r = "call_on_first g add_line (Inr \<lparr>line_count = n, line_text = l\<rparr>) s"
  have c: "attrs (state_of ?r) = attrs s \<and> cls (state_of ?r) = cls s \<and> kinds (state_of ?r) = kinds s"
    by (rule call_on_first_frame) (rule add_line_kind)
  show ?case
  proof (cases ?r)
    case (Ok s1)
    with c Cons.IH [of s1] show ?thesis by (simp add: x)
  next
    case (Raised e s1)
    with c show ?thesis by (simp add: x)
  qed
qed

lemma add_emails_frame:
  "attrs (state_of (add_emails xs s)) = attrs s
   \<and> cls (state_of (add_emails xs s)) = cls s
   \<and> kinds (state_of (add_emails xs s)) = kinds s"
proof (induction xs arbitrary: s)
  case Nil
  then show ?case by simp
next
  case (Cons x xs)
  let ?r = "call_on_first ''emails'' add_email (Inr x) s"
  have c: "attrs (state_of ?r) = attrs s \<and> cls (state_of ?r) = cls s \<and> kinds (state_of ?r) = kinds s"
    by (rule call_on_first_frame) (rule add_email_kind)
  show ?case
  proof (cases ?r)
    case (Ok s1)
    with c Cons.IH [of s1] show ?thesis by simp
  next
    case (Raised e s1)
    with c show ?thesis by simp
  qed
qed

lemma office_extension_frame:
  "attrs (state_of (office_extension val s)) = attrs s
   \<and> cls (state_of (office_extension val s)) = cls s
   \<and> kinds (state_of (office_extension val s)) = kinds s"
proof (cases "first_elem ''phones'' s")
  case (Inl e)
  then show ?thesis by (simp add: office_extension_def)
next
  case (Inr el)
  show ?thesis
  proof (cases el)
    case (Ref a)
    show ?thesis
    proof (cases "deref s a")
      case None
      with Inr Ref show ?thesis by (simp add: office_extension_def)
    next
      case (Some ob)
      then have a: "a < length (heap s)" and ob: "ob = heap s ! a"
        by (auto simp: deref_def split: if_splits)
      show ?thesis
      proof (cases ob)
        case (Phones ps)
        obtain ps' e where se: "set_extension val ps = (ps', e)" by (cases "set_extension val ps")
        have hp: "heap s ! a = Phones ps" using ob Phones by simp
        have "kind (Phones ps') = kind (heap s ! a)" unfolding hp by simp
        from kinds_update [OF a this] Inr Ref Some Phones se show ?thesis
          by (cases e) (simp_all add: office_extension_def)
      qed (use Inr Ref Some in \<open>simp_all add: office_extension_def\<close>)
    qed
  qed (use Inr in \<open>simp_all add: office_extension_def\<close>)
qed

text \<open>What a handler of the form "create the container when missing, then fill it" does.\<close>

lemma lazy_handler:
  assumes body: "\<And>t. attrs (state_of (body t)) = attrs t \<and> cls (state_of (body t)) = cls t
                      \<and> kinds (state_of (body t)) = kinds t"
    and fresh: "kind fresh = g"
    and s1: "s1 = state_of (and_then (ensure_container g fresh s) body)"
  shows "cls s1 = cls s \<and> (\<forall>a. a \<noteq> g \<longrightarrow> attrs s1 a = attrs s a)
       \<and> ((kinds s1 = kinds s \<and> attrs s1 = attrs s \<and> (\<forall>w. attrs s g = Some w \<longrightarrow> \<not> falsy w))
          \<or> ((\<exists>w. attrs s g = Some w \<and> falsy w)
              \<and> attrs s1 g = Some (PyList [Ref (length (heap s))])
              \<and> kinds s1 = kinds s @ [g]))"
proof (cases "attrs s g")
  case None
  then show ?thesis using s1 by (simp add: ensure_container_def)
next
  case (Some w)
  show ?thesis
  proof (cases "falsy w")
    case True
    let ?t = "s\<lparr>attrs := (attrs s)(g \<mapsto> PyList [Ref (length (heap s))]),
                heap := heap s @ [fresh]\<rparr>"
    have "s1 = state_of (body ?t)" using s1 Some True by (simp add: ensure_container_def)
    with body [of ?t] Some True fresh show ?thesis by (simp add: kinds_def)
  next
    case False
    then have "s1 = state_of (body s)" using s1 Some by (simp add: ensure_container_def)
    with body [of s] Some False show ?thesis by simp
  qed
qed

lemma lazy_handler_step:
  assumes body: "\<And>t. attrs (state_of (body t)) = attrs t \<and> cls (state_of (body t)) = cls t
                      \<and> kinds (state_of (body t)) = kinds t"
    and fresh: "kind fresh = g"
  shows "lazy_step g s (state_of (and_then (ensure_container g fresh s) body))"
  using lazy_handler [OF body fresh refl, of s] unfolding lazy_step_def by blast

lemma address_step: "lazy_step ''streetAddress'' s (state_of (address v s))"
  unfolding address_def by (rule lazy_handler_step) (simp_all add: add_lines_frame)

lemma PayloadFromDict_address_step:
  "lazy_step ''streetAddress'' s (state_of (PayloadFromDict_address v s))"
  unfolding PayloadFromDict_address_def by (rule lazy_handler_step) (simp_all add: add_lines_frame)

lemma comment_step: "lazy_step ''comment'' s (state_of (comment v s))"
  unfolding comment_def by (rule lazy_handler_step) (simp_all add: add_lines_frame)

lemma email_address_step: "lazy_step ''emails'' s (state_of (email_address v s))"
  unfolding email_address_def by (rule lazy_handler_step) (simp_all add: add_emails_frame)

lemma phone_method_step: "lazy_step ''phones'' s (state_of (phone_method v c s))"
  unfolding phone_method_def
  by (rule lazy_handler_step) (simp_all add: call_on_first_frame add_phone_kind)

lemma poc_step: "lazy_step ''pocLinks'' s (state_of (poc v c s))"
  unfolding poc_def
  by (rule lazy_handler_step) (simp_all add: call_on_first_frame add_pocLinkRef_kind)

lemma office_extension_step: "lazy_step ''phones'' s (state_of (office_extension v s))"
  using office_extension_frame [of v s] by (simp add: lazy_step_def)

lemma contact_type_step: "plain_step ''contactType'' s (state_of (contact_type v s))"
  by (simp add: plain_step_def contact_type_def verify_attribute_def setattr_def)

lemma country_code_step: "plain_step ''iso3166_1'' s (state_of (country_code v s))"
  by (simp add: plain_step_def country_code_def setattr_def)

lemma PayloadFromDict_country_code_step:
  "plain_step ''iso3166_1'' s (state_of (PayloadFromDict_country_code cs v s))"
  by (simp add: plain_step_def PayloadFromDict_country_code_def setattr_def
      split: list.splits option.splits)

lemma assign_step: "plain_step a s (state_of (assign a v s))"
  by (simp add: plain_step_def assign_def verify_attribute_def setattr_def)

lemma method_summary:
  assumes "getattr_self m = Inr meth"
  shows "(handler_field m \<in> set container_fields \<and> lazy_step (handler_field m) s (state_of (meth v s)))
       \<or> (handler_field m \<in> {''contactType'', ''iso3166_1''}
           \<and> plain_step (handler_field m) s (state_of (meth v s)))"
  using assms
  by (auto simp: getattr_self_def handler_field_def container_fields_def
        address_step comment_step email_address_step phone_method_step poc_step
        office_extension_step contact_type_step country_code_step
        phone_office_def phone_mobile_def phone_fax_def
        poc_admin_def poc_tech_def poc_abuse_def poc_noc_def
      split: if_splits)

lemma PayloadFromDict_method_summary:
  assumes "PayloadFromDict_getattr cs m = Inr meth"
  shows "(handler_field m \<in> set container_fields \<and> lazy_step (handler_field m) s (state_of (meth v s)))
       \<or> (handler_field m \<in> {''contactType'', ''iso3166_1''}
           \<and> plain_step (handler_field m) s (state_of (meth v s)))"
  using assms
  by (auto simp: PayloadFromDict_getattr_def handler_field_def container_fields_def
        PayloadFromDict_address_step email_address_step phone_method_step
        office_extension_step contact_type_step PayloadFromDict_country_code_step
        phone_office_def phone_mobile_def phone_fax_def
      split: if_splits)

lemma length_kinds [simp]: "length (kinds s) = length (heap s)"
  by (simp add: kinds_def)

lemma build_ok_refl: "build_ok f s s"
  by (simp add: build_ok_def)

lemma lazy_step_build_ok:
  assumes "lazy_step g s s1"
  shows "build_ok f s s1"
proof -
  from assms have other: "\<forall>a. a \<noteq> g \<longrightarrow> attrs s1 a = attrs s a"
    and alt: "(kinds s1 = kinds s \<and> attrs s1 = attrs s)
         \<or> ((\<exists>w. attrs s g = Some w \<and> falsy w)
             \<and> attrs s1 g = Some (PyList [Ref (length (heap s))])
             \<and> kinds s1 = kinds s @ [g])"
    by (simp_all add: lazy_step_def)
  from alt show ?thesis
  proof
    assume "kinds s1 = kinds s \<and> attrs s1 = attrs s"
    then show ?thesis by (simp add: build_ok_def created_def)
  next
    assume c: "(\<exists>w. attrs s g = Some w \<and> falsy w)
             \<and> attrs s1 g = Some (PyList [Ref (length (heap s))])
             \<and> kinds s1 = kinds s @ [g]"
    then have k: "kinds s1 = kinds s @ [g]" by simp
    have l: "length (heap s1) = length (heap s) + 1"
      using arg_cong [OF k, of length] by simp
    show ?thesis
    proof (cases "g = f")
      case True
      have "kinds s1 ! length (heap s) = f" using k True
        by (metis length_kinds nth_append_length)
      then have "kind (heap s1 ! length (heap s)) = f" using l by (simp add: kinds_def)
      with c k l True show ?thesis by (auto simp: build_ok_def created_def)
    next
      case False
      with other have "attrs s1 f = attrs s f" by simp
      with k False show ?thesis by (simp add: build_ok_def created_def)
    qed
  qed
qed

lemma plain_step_build_ok:
  assumes "plain_step g s s1" and "g \<noteq> f"
  shows "build_ok f s s1"
  using assms by (simp add: plain_step_def build_ok_def created_def kinds_def)

lemma build_ok_trans:
  assumes a: "build_ok f s s1" and b: "build_ok f s1 s2"
  shows "build_ok f s s2"
proof -
  from a obtain ex1 where e1: "kinds s1 = kinds s @ ex1" by (auto simp: build_ok_def)
  from b obtain ex2 where e2: "kinds s2 = kinds s1 @ ex2" by (auto simp: build_ok_def)
  have ext: "\<exists>ex. kinds s2 = kinds s @ ex" using e1 e2 by simp
  have l1: "length (heap s) \<le> length (heap s1)" using arg_cong [OF e1, of length] by simp
  have l2: "length (heap s1) \<le> length (heap s2)" using arg_cong [OF e2, of length] by simp
  from a have "(created f s1 = created f s \<and> attrs s1 f = attrs s f)
         \<or> ((\<exists>w. attrs s f = Some w \<and> falsy w)
             \<and> created f s1 = created f s + 1
             \<and> (\<exists>a. attrs s1 f = Some (PyList [Ref a]) \<and> length (heap s) \<le> a
                    \<and> a < length (heap s1) \<and> kind (heap s1 ! a) = f))"
    by (simp add: build_ok_def)
  then show ?thesis
  proof
    assume same: "created f s1 = created f s \<and> attrs s1 f = attrs s f"
    from b have "(created f s2 = created f s1 \<and> attrs s2 f = attrs s1 f)
         \<or> ((\<exists>w. attrs s1 f = Some w \<and> falsy w)
             \<and> created f s2 = created f s1 + 1
             \<and> (\<exists>a. attrs s2 f = Some (PyList [Ref a]) \<and> length (heap s1) \<le> a
                    \<and> a < length (heap s2) \<and> kind (heap s2 ! a) = f))"
      by (simp add: build_ok_def)
    then show ?thesis
    proof
      assume "created f s2 = created f s1 \<and> attrs s2 f = attrs s1 f"
      with same ext show ?thesis by (simp add: build_ok_def)
    next
      assume c: "(\<exists>w. attrs s1 f = Some w \<and> falsy w)
             \<and> created f s2 = created f s1 + 1
             \<and> (\<exists>a. attrs s2 f = Some (PyList [Ref a]) \<and> length (heap s1) \<le> a
                    \<and> a < length (heap s2) \<and> kind (heap s2 ! a) = f)"
      then obtain a where a: "attrs s2 f = Some (PyList [Ref a])" "length (heap s1) \<le> a"
        "a < length (heap s2)" "kind (heap s2 ! a) = f" by blast
      from a(2) l1 have "length (heap s) \<le> a" by simp
      with a c same ext show ?thesis unfolding build_ok_def by auto
    qed
  next
    assume c: "(\<exists>w. attrs s f = Some w \<and> falsy w)
             \<and> created f s1 = created f s + 1
             \<and> (\<exists>a. attrs s1 f = Some (PyList [Ref a]) \<and> length (heap s) \<le> a
                    \<and> a < length (heap s1) \<and> kind (heap s1 ! a) = f)"
    then obtain a where a: "attrs s1 f = Some (PyList [Ref a])" "length (heap s) \<le> a"
        "a < length (heap s1)" "kind (heap s1 ! a) = f" by blast
    from a(1) have nf: "\<not> (\<exists>w. attrs s1 f = Some w \<and> falsy w)" by (simp add: falsy_def)
    with b have same: "created f s2 = created f s1 \<and> attrs s2 f = attrs s1 f"
      by (auto simp: build_ok_def)
    have "kinds s2 ! a = kinds s1 ! a" using e2 a(3) by (simp add: nth_append)
    then have "kind (heap s2 ! a) = kind (heap s1 ! a)"
      using a(3) l2 by (simp add: kinds_def)
    with a l2 have "attrs s2 f = Some (PyList [Ref a]) \<and> length (heap s) \<le> a
                    \<and> a < length (heap s2) \<and> kind (heap s2 ! a) = f"
      using same by simp
    with c same ext show ?thesis unfolding build_ok_def by auto
  qed
qed

lemma dispatch_build_ok:
  assumes gm: "\<And>m meth v s. getm m = Inr meth \<Longrightarrow>
       (handler_field m \<in> set container_fields
          \<and> lazy_step (handler_field m) s (state_of (meth v s)))
       \<or> (handler_field m \<in> {''contactType'', ''iso3166_1''}
          \<and> plain_step (handler_field m) s (state_of (meth v s)))"
    and sc: "\<forall>(k, a)\<in>set (attr cfg). a \<notin> set container_fields"
    and f: "f \<in> set container_fields"
  shows "build_ok f s (state_of (dispatch getm cfg k v s))"
proof (cases "map_of (handler cfg) k")
  case (Some m)
  show ?thesis
  proof (cases "getm m")
    case (Inl e)
    with Some show ?thesis by (simp add: dispatch_def build_ok_refl)
  next
    case (Inr meth)
    have nf: "f \<notin> {''contactType'', ''iso3166_1''}" using f by (auto simp: container_fields_def)
    from gm [OF Inr, of s v] have "build_ok f s (state_of (meth v s))"
      using nf by (auto intro: lazy_step_build_ok plain_step_build_ok)
    with Some Inr show ?thesis by (simp add: dispatch_def)
  qed
next
  case None
  show ?thesis
  proof (cases "map_of (attr cfg) k")
    case (Some a)
    then have "(k, a) \<in> set (attr cfg)" by (rule map_of_SomeD)
    with sc f have "a \<noteq> f" by auto
    with assign_step [of a s v] have "build_ok f s (state_of (assign a v s))"
      by (rule plain_step_build_ok)
    with None Some show ?thesis by (simp add: dispatch_def)
  next
    case n: None
    with None show ?thesis by (simp add: dispatch_def build_ok_refl)
  qed
qed

lemma run_loop_build_ok:
  assumes gm: "\<And>m meth v s. getm m = Inr meth \<Longrightarrow>
       (handler_field m \<in> set container_fields
          \<and> lazy_step (handler_field m) s (state_of (meth v s)))
       \<or> (handler_field m \<in> {''contactType'', ''iso3166_1''}
          \<and> plain_step (handler_field m) s (state_of (meth v s)))"
    and sc: "\<forall>(k, a)\<in>set (attr cfg). a \<notin> set container_fields"
    and f: "f \<in> set container_fields"
  shows "build_ok f s (state_of (run_loop getm cfg src s))"
proof (induction src arbitrary: s)
  case Nil
  then show ?case by (simp add: build_ok_refl)
next
  case (Cons x src)
  obtain k v where x: "x = (k, v)" by (cases x)
  have d: "build_ok f s (state_of (dispatch getm cfg k v s))"
    using gm sc f by (rule dispatch_build_ok)
  show ?case
  proof (cases "dispatch getm cfg k v s")
    case (Ok s1)
    with d have "build_ok f s s1" by simp
    from build_ok_trans [OF this Cons.IH [of s1]] Ok show ?thesis by (simp add: x)
  next
    case (Raised e s1)
    with d show ?thesis by (simp add: x)
  qed
qed

lemma handler_field_in_handler_fields:
  assumes "(handler_field m \<in> set container_fields \<and> P) \<or> (handler_field m \<in> {''contactType'', ''iso3166_1''} \<and> Q)"
  shows "handler_field m \<in> set handler_fields"
  using assms by (auto simp: handler_fields_def)

lemma summary_other_attr:
  assumes "(handler_field m \<in> set container_fields \<and> lazy_step (handler_field m) s s1)
       \<or> (handler_field m \<in> {''contactType'', ''iso3166_1''} \<and> plain_step (handler_field m) s s1)"
    and "a \<noteq> handler_field m"
  shows "attrs s1 a = attrs s a"
  using assms by (auto simp: lazy_step_def plain_step_def)

lemma dispatch_keeps_attr:
  assumes gm: "\<And>m meth v s. getm m = Inr meth \<Longrightarrow>
       (handler_field m \<in> set container_fields
          \<and> lazy_step (handler_field m) s (state_of (meth v s)))
       \<or> (handler_field m \<in> {''contactType'', ''iso3166_1''}
          \<and> plain_step (handler_field m) s (state_of (meth v s)))"
    and a: "a \<notin> set handler_fields"
    and k: "map_of (handler cfg) k \<noteq> None \<or> map_of (attr cfg) k \<noteq> Some a"
  shows "attrs (state_of (dispatch getm cfg k v s)) a = attrs s a"
proof (cases "map_of (handler cfg) k")
  case (Some m)
  show ?thesis
  proof (cases "getm m")
    case (Inl e)
    with Some show ?thesis by (simp add: dispatch_def)
  next
    case (Inr meth)
    note g = gm [OF Inr, of s v]
    from handler_field_in_handler_fields [OF g] a have "a \<noteq> handler_field m" by auto
    from summary_other_attr [OF g this] Some Inr show ?thesis by (simp add: dispatch_def)
  qed
next
  case None
  show ?thesis
  proof (cases "map_of (attr cfg) k")
    case (Some a')
    with None k have "a \<noteq> a'" by auto
    with assign_step [of a' s v] have "attrs (state_of (assign a' v s)) a = attrs s a"
      by (simp add: plain_step_def)
    with None Some show ?thesis by (simp add: dispatch_def)
  next
    case n: None
    with None show ?thesis by (simp add: dispatch_def)
  qed
qed

lemma run_loop_keeps_attr:
  assumes gm: "\<And>m meth v s. getm m = Inr meth \<Longrightarrow>
       (handler_field m \<in> set container_fields
          \<and> lazy_step (handler_field m) s (state_of (meth v s)))
       \<or> (handler_field m \<in> {''contactType'', ''iso3166_1''}
          \<and> plain_step (handler_field m) s (state_of (meth v s)))"
    and a: "a \<notin> set handler_fields"
    and ks: "\<forall>(k, v)\<in>set src. map_of (handler cfg) k \<noteq> None \<or> map_of (attr cfg) k \<noteq> Some a"
  shows "attrs (state_of (run_loop getm cfg src s)) a = attrs s a"
  using ks
proof (induction src arbitrary: s)
  case Nil
  then show ?case by simp
next
  case (Cons x src)
  obtain k v where x: "x = (k, v)" by (cases x)
  from Cons.prems x have k: "map_of (handler cfg) k \<noteq> None \<or> map_of (attr cfg) k \<noteq> Some a"
    by simp
  have d: "attrs (state_of (dispatch getm cfg k v s)) a = attrs s a"
    using gm a k by (rule dispatch_keeps_attr)
  from Cons.prems have r: "\<forall>(k, v)\<in>set src. map_of (handler cfg) k \<noteq> None \<or> map_of (attr cfg) k \<noteq> Some a"
    by simp
  show ?case
  proof (cases "dispatch getm cfg k v s")
    case (Ok s1)
    with d Cons.IH [OF r, of s1] show ?thesis by (simp add: x)
  next
    case (Raised e s1)
    with d show ?thesis by (simp add: x)
  qed
qed

lemma and_then_OkD:
  "and_then r f = Ok s' \<Longrightarrow> \<exists>s1. r = Ok s1 \<and> f s1 = Ok s'"
  by (cases r) simp_all

text \<open>
  Claim C1, as amended. The loop of \<open>run\<close> processes the keys in the order in which
  \<open>iteritems()\<close> yields the items of the source dict. When two keys without handler are
  mapped to the same attribute, which no handler assigns, and no key yielded after the
  second of them is mapped to that attribute, then a run that returns leaves the attribute
  holding the value list of the key that was yielded second.
\<close>

theorem C1_later_processed_key_wins:
  assumes "map_of (handler cfg) k1 = None" and "map_of (attr cfg) k1 = Some a"
    and "map_of (handler cfg) k2 = None" and "map_of (attr cfg) k2 = Some a"
    and "a \<notin> set handler_fields"
    and "\<forall>(k, v)\<in>set zs. map_of (handler cfg) k \<noteq> None \<or> map_of (attr cfg) k \<noteq> Some a"
    and "run_loop getattr_self cfg (xs @ (k1, v1) # ys @ (k2, v2) # zs) s = Ok s'"
  shows "attrs s' a = Some (PyList (map Str v2))"
proof -
  let ?pre = "xs @ (k1, v1) # ys"
  have "run_loop getattr_self cfg (?pre @ (k2, v2) # zs) s = Ok s'" using assms(7) by simp
  then have "and_then (run_loop getattr_self cfg ?pre s)
               (run_loop getattr_self cfg ((k2, v2) # zs)) = Ok s'"
    by (simp only: run_loop_append)
  from and_then_OkD [OF this] obtain s1 where
    s1: "run_loop getattr_self cfg ((k2, v2) # zs) s1 = Ok s'" by blast
  have d: "dispatch getattr_self cfg k2 v2 s1 = assign a v2 s1"
    using assms(3,4) by (simp add: dispatch_def)
  from s1 have "and_then (assign a v2 s1) (run_loop getattr_self cfg zs) = Ok s'"
    by (simp add: d)
  from and_then_OkD [OF this] obtain s2 where s2: "assign a v2 s1 = Ok s2"
    and r: "run_loop getattr_self cfg zs s2 = Ok s'" by blast
  from s2 have "attrs s2 a = Some (PyList (map Str v2))"
    by (auto simp: assign_def verify_attribute_def setattr_def split: if_splits)
  moreover have "attrs (state_of (run_loop getattr_self cfg zs s2)) a = attrs s2 a"
    by (rule run_loop_keeps_attr [where getm = getattr_self])
       (use method_summary assms(5,6) in blast)+
  ultimately show ?thesis using r by simp
qed

text \<open>
  The template has \<open>Org City\<close> on its first line and \<open>City\<close> on its second. The parsed dict
  may yield \<open>City\<close> first; then \<open>city\<close> ends with the value of \<open>Org City\<close>, the key that
  occurs earlier in the template.
\<close>

theorem C1_counterexample:
  "is_iteritems (DictFromTemplate_run (DictFromTemplate_init [''01.Org City:B'', ''02.City:A'']))
      [(''City'', [''A'']), (''Org City'', [''B''])]
   \<and> run PayloadFromTemplateDict
        \<lparr>source = [(''City'', [''A'']), (''Org City'', [''B''])], payload = example_payload\<rparr>
      = Ok (setattr example_payload ''city'' (PyList [Str ''B'']))
   \<and> attrs (setattr example_payload ''city'' (PyList [Str ''B''])) ''city'' \<noteq> Some (PyList [Str ''A''])"
proof -
  have p: "DictFromTemplate_run (DictFromTemplate_init [''01.Org City:B'', ''02.City:A''])
             = [(''Org City'', [''B'']), (''City'', [''A''])]"
    by (simp add: DictFromTemplate_run_def DictFromTemplate_init_def regex_match_def is_digit_def
      dot_star_max_def newline_def try_colon_def process_def strip_def is_space_def Let_def)
  have i: "is_iteritems [(''Org City'', [''B'']), (''City'', [''A''])]
             [(''City'', [''A'']), (''Org City'', [''B''])]"
    by (simp add: is_iteritems_def)
  have r: "run PayloadFromTemplateDict
        \<lparr>source = [(''City'', [''A'']), (''Org City'', [''B''])], payload = example_payload\<rparr>
      = Ok (setattr example_payload ''city'' (PyList [Str ''B'']))"
    by (simp add: run_def dispatch_def PayloadFromTemplateDict_def assign_def
        verify_attribute_def getattr_default_def setattr_def example_payload_def)
  show ?thesis using p i r by (simp add: setattr_def)
qed

text \<open>
  The amended claim at the tables of \<open>PayloadFromTemplateDict\<close>, with \<open>City\<close> yielded before
  \<open>Org City\<close>.
\<close>

theorem C1_witness:
  "run_loop getattr_self PayloadFromTemplateDict
      ([] @ (''City'', [''A'']) # [(''Address'', [''1 Main St''])] @ (''Org City'', [''B'']) # [(''Fax'', [''5''])])
      example_payload
     = Ok (state_of (run_loop getattr_self PayloadFromTemplateDict
             [(''City'', [''A'']), (''Address'', [''1 Main St'']), (''Org City'', [''B'']), (''Fax'', [''5''])]
             example_payload))
   \<and> attrs (state_of (run_loop getattr_self PayloadFromTemplateDict
             [(''City'', [''A'']), (''Address'', [''1 Main St'']), (''Org City'', [''B'']), (''Fax'', [''5''])]
             example_payload)) ''city'' = Some (PyList [Str ''B''])"
proof -
  let ?src = "[(''City'', [''A'']), (''Address'', [''1 Main St'']), (''Org City'', [''B'']), (''Fax'', [''5''])]"
  have h1: "map_of (handler PayloadFromTemplateDict) ''City'' = None"
    and a1: "map_of (attr PayloadFromTemplateDict) ''City'' = Some ''city''"
    and h2: "map_of (handler PayloadFromTemplateDict) ''Org City'' = None"
    and a2: "map_of (attr PayloadFromTemplateDict) ''Org City'' = Some ''city''"
    by (simp_all add: PayloadFromTemplateDict_def)
  have nf: "''city'' \<notin> set handler_fields" by (simp add: handler_fields_def container_fields_def)
  have zs: "\<forall>(k, v)\<in>set [(''Fax'', [''5''])].
              map_of (handler PayloadFromTemplateDict) k \<noteq> None
              \<or> map_of (attr PayloadFromTemplateDict) k \<noteq> Some ''city''"
    by (simp add: PayloadFromTemplateDict_def)
  have ok: "is_ok (run_loop getattr_self PayloadFromTemplateDict ?src example_payload)"
    by (simp add: dispatch_def PayloadFromTemplateDict_def assign_def getattr_self_def
        verify_attribute_def getattr_default_def setattr_def example_payload_def
        address_def phone_fax_def phone_method_def ensure_container_def falsy_def
        call_on_first_def first_elem_def deref_def add_line_def add_phone_def)
  then have r: "run_loop getattr_self PayloadFromTemplateDict
      ([] @ (''City'', [''A'']) # [(''Address'', [''1 Main St''])] @ (''Org City'', [''B'']) # [(''Fax'', [''5''])])
      example_payload = Ok (state_of (run_loop getattr_self PayloadFromTemplateDict ?src example_payload))"
    by (cases "run_loop getattr_self PayloadFromTemplateDict ?src example_payload") simp_all
  from C1_later_processed_key_wins [OF h1 a1 h2 a2 nf zs r] r show ?thesis by simp
qed

lemma office_extension_no_container:
  assumes "attrs s ''phones'' = None \<or> (\<exists>w. attrs s ''phones'' = Some w \<and> falsy w)"
  shows "\<exists>e. office_extension val s = Raised e s"
  using assms by (auto simp: office_extension_def first_elem_def falsy_def)

lemma handler_field_phones:
  "handler_field m = ''phones'' \<Longrightarrow>
     m \<in> {''_phone_office'', ''_phone_mobile'', ''_phone_fax'', ''_office_extension''}"
  by (simp add: handler_field_def split: if_splits)

lemma run_loop_extension_fails:
  assumes gm: "\<And>m meth v s. getm m = Inr meth \<Longrightarrow>
       (handler_field m \<in> set container_fields
          \<and> lazy_step (handler_field m) s (state_of (meth v s)))
       \<or> (handler_field m \<in> {''contactType'', ''iso3166_1''}
          \<and> plain_step (handler_field m) s (state_of (meth v s)))"
    and ge: "getm ''_office_extension'' = Inr office_extension"
    and sc: "\<forall>(k, a)\<in>set (attr cfg). a \<noteq> ''phones''"
  shows "\<forall>(k, v)\<in>set src. map_of (handler cfg) k
             \<notin> {Some ''_phone_office'', Some ''_phone_mobile'', Some ''_phone_fax''} \<Longrightarrow>
         \<exists>(k, v)\<in>set src. map_of (handler cfg) k = Some ''_office_extension'' \<Longrightarrow>
         attrs s ''phones'' = None \<or> (\<exists>w. attrs s ''phones'' = Some w \<and> falsy w) \<Longrightarrow>
         \<not> is_ok (run_loop getm cfg src s)"
proof (induction src arbitrary: s)
  case Nil
  then show ?case by simp
next
  case (Cons x src)
  obtain k v where x: "x = (k, v)" by (cases x)
  show ?case
  proof (cases "dispatch getm cfg k v s")
    case (Raised e s1)
    then show ?thesis by (simp add: x)
  next
    case (Ok s1)
    have ne: "map_of (handler cfg) k \<noteq> Some ''_office_extension''"
    proof
      assume "map_of (handler cfg) k = Some ''_office_extension''"
      then have "dispatch getm cfg k v s = office_extension v s"
        using ge by (simp add: dispatch_def)
      with office_extension_no_container [OF Cons.prems(3), of v] Ok show False by auto
    qed
    have keep: "attrs s1 ''phones'' = attrs s ''phones''"
    proof (cases "map_of (handler cfg) k")
      case (Some m)
      show ?thesis
      proof (cases "getm m")
        case (Inl e)
        with Some Ok show ?thesis by (simp add: dispatch_def)
      next
        case (Inr meth)
        from Cons.prems(1) x Some ne
        have "m \<notin> {''_phone_office'', ''_phone_mobile'', ''_phone_fax'', ''_office_extension''}"
          by auto
        with handler_field_phones [of m] have hf: "handler_field m \<noteq> ''phones''" by blast
        from gm [OF Inr, of s v] hf have "attrs (state_of (meth v s)) ''phones'' = attrs s ''phones''"
          by (auto simp: lazy_step_def plain_step_def)
        with Some Inr Ok show ?thesis by (simp add: dispatch_def)
      qed
    next
      case None
      show ?thesis
      proof (cases "map_of (attr cfg) k")
        case (Some a)
        then have "(k, a) \<in> set (attr cfg)" by (rule map_of_SomeD)
        with sc have "a \<noteq> ''phones''" by auto
        with assign_step [of a s v]
        have "attrs (state_of (assign a v s)) ''phones'' = attrs s ''phones''"
          by (simp add: plain_step_def)
        with None Some Ok show ?thesis by (simp add: dispatch_def)
      next
        case n: None
        with None Ok show ?thesis by (auto simp: dispatch_def split: if_splits)
      qed
    qed
    have p1: "\<forall>(k, v)\<in>set src. map_of (handler cfg) k
             \<notin> {Some ''_phone_office'', Some ''_phone_mobile'', Some ''_phone_fax''}"
      using Cons.prems(1) by simp
    have p2: "\<exists>(k, v)\<in>set src. map_of (handler cfg) k = Some ''_office_extension''"
      using Cons.prems(2) ne x by auto
    have p3: "attrs s1 ''phones'' = None \<or> (\<exists>w. attrs s1 ''phones'' = Some w \<and> falsy w)"
      using Cons.prems(3) keep by simp
    from Cons.IH [OF p1 p2 p3] Ok show ?thesis by (simp add: x)
  qed
qed

lemma set_extension_well_shaped:
  assumes "\<forall>p\<in>set ps. \<exists>t ts c cs. phone_type p = t # ts \<and> code t = c # cs \<and> c \<noteq> ''O''"
  shows "set_extension val ps = (ps, None)"
  using assms by (induction ps) auto

text \<open>
  The template holds a mobile number and an office extension, and no office number. The
  builder is constructed without error, and both converters return normally; the payload is the one the mobile handler alone produces, and
  its only phone entry has no extension.
\<close>

theorem C2_counterexample:
  "is_iteritems
      (DictFromTemplate_run (DictFromTemplate_init
         [''01.Mobile:555'', ''02.Office Phone Number Extension:12'']))
      [(''Mobile'', [''555'']), (''Office Phone Number Extension'', [''12''])]
   \<and> init PayloadFromTemplateDict
        [(''Mobile'', [''555'']), (''Office Phone Number Extension'', [''12''])] example_payload
      = Inr \<lparr>source = [(''Mobile'', [''555'']), (''Office Phone Number Extension'', [''12''])],
             payload = example_payload\<rparr>
   \<and> run PayloadFromTemplateDict
        \<lparr>source = [(''Mobile'', [''555'']), (''Office Phone Number Extension'', [''12''])],
         payload = example_payload\<rparr> = Ok mobile_payload
   \<and> PayloadFromDict_run (\<lambda>c. None)
        \<lparr>source = [(''Mobile'', [''555'']), (''Office Phone Number Extension'', [''12''])],
         payload = example_payload\<rparr> = Ok mobile_payload
   \<and> heap mobile_payload
       = [Phones [\<lparr>number = [''555''], phone_type = [\<lparr>code = [''M'']\<rparr>], extension = None\<rparr>]]"
proof -
  have p: "DictFromTemplate_run (DictFromTemplate_init
         [''01.Mobile:555'', ''02.Office Phone Number Extension:12''])
       = [(''Mobile'', [''555'']), (''Office Phone Number Extension'', [''12''])]"
    by (simp add: DictFromTemplate_run_def DictFromTemplate_init_def regex_match_def is_digit_def
      dot_star_max_def newline_def try_colon_def process_def strip_def is_space_def Let_def)
  have m: "phone_mobile [''555''] example_payload = Ok mobile_payload"
    by (simp add: phone_mobile_def phone_method_def ensure_container_def falsy_def
        call_on_first_def first_elem_def deref_def add_phone_def example_payload_def
        mobile_payload_def)
  have e: "office_extension [''12''] mobile_payload = Ok mobile_payload"
    by (simp add: office_extension_def first_elem_def deref_def mobile_payload_def
        example_payload_def)
  have r1: "run PayloadFromTemplateDict
        \<lparr>source = [(''Mobile'', [''555'']), (''Office Phone Number Extension'', [''12''])],
         payload = example_payload\<rparr> = Ok mobile_payload"
    by (simp add: run_def dispatch_def PayloadFromTemplateDict_def getattr_self_def m e)
  have r2: "PayloadFromDict_run (\<lambda>c. None)
        \<lparr>source = [(''Mobile'', [''555'']), (''Office Phone Number Extension'', [''12''])],
         payload = example_payload\<rparr> = Ok mobile_payload"
    by (simp add: PayloadFromDict_run_def dispatch_def PayloadFromDict_def
        PayloadFromDict_getattr_def m e)
  have c: "init PayloadFromTemplateDict
        [(''Mobile'', [''555'']), (''Office Phone Number Extension'', [''12''])] example_payload
      = Inr \<lparr>source = [(''Mobile'', [''555'']), (''Office Phone Number Extension'', [''12''])],
             payload = example_payload\<rparr>"
    by (simp add: init_def verify_class_dicts_def PayloadFromTemplateDict_def)
  show ?thesis using p c r1 r2 by (simp add: is_iteritems_def mobile_payload_def)
qed

lemma lazy_exact:
  assumes body: "\<And>t a es. attrs t f = Some (PyList (Ref a # es)) \<Longrightarrow> a < length (heap t) \<Longrightarrow>
                   kind (heap t ! a) = f \<Longrightarrow>
                   body t = Ok (t\<lparr>heap := (heap t)[a := append_obj (heap t ! a) new]\<rparr>)"
    and fresh: "kind fresh = f" "append_obj fresh new = new"
  shows "lazily_adds f (and_then (ensure_container f fresh s) body) new s"
proof -
  have a: "and_then (ensure_container f fresh s) body =
             Ok (s\<lparr>attrs := (attrs s)(f \<mapsto> PyList [Ref (length (heap s))]),
                   heap := heap s @ [new]\<rparr>)"
    if w: "attrs s f = Some w" "falsy w" for w
  proof -
    let ?t = "s\<lparr>attrs := (attrs s)(f \<mapsto> PyList [Ref (length (heap s))]),
                heap := heap s @ [fresh]\<rparr>"
    have e: "ensure_container f fresh s = Ok ?t" using w by (simp add: ensure_container_def)
    have "body ?t = Ok (?t\<lparr>heap := (heap ?t)[length (heap s) := append_obj (heap ?t ! length (heap s)) new]\<rparr>)"
      by (rule body [where es = "[]"]) (simp_all add: fresh)
    then show ?thesis using e fresh by simp
  qed
  have b: "and_then (ensure_container f fresh s) body =
             Ok (s\<lparr>heap := (heap s)[a := append_obj (heap s ! a) new]\<rparr>)"
    if h: "attrs s f = Some (PyList (Ref a # es))" "a < length (heap s)" "kind (heap s ! a) = f"
    for a es
  proof -
    have "ensure_container f fresh s = Ok s" using h(1) by (simp add: ensure_container_def falsy_def)
    with body [OF h] show ?thesis by simp
  qed
  from a b show ?thesis unfolding lazily_adds_def by blast
qed

lemma add_lines_comment:
  assumes "attrs s f = Some (PyList (Ref a # es))" and "a < length (heap s)"
    and "heap s ! a = Comment ls"
  shows "add_lines f xs s =
     Ok (s\<lparr>heap := (heap s)[a := Comment
            (ls @ map (\<lambda>(n, l). \<lparr>line_count = n, line_text = l\<rparr>) xs)]\<rparr>)"
  using assms
proof (induction xs arbitrary: s ls)
  case Nil
  then have "(heap s)[a := Comment ls] = heap s" by (metis list_update_id)
  then show ?case by simp
next
  case (Cons x xs)
  obtain n l where x: "x = (n, l)" by (cases x)
  let ?s1 = "s\<lparr>heap := (heap s)[a := Comment (ls @ [\<lparr>line_count = n, line_text = l\<rparr>])]\<rparr>"
  have c: "call_on_first f add_line (Inr \<lparr>line_count = n, line_text = l\<rparr>) s = Ok ?s1"
    using Cons.prems by (simp add: call_on_first_def first_elem_def deref_def add_line_def)
  have "add_lines f xs ?s1 =
     Ok (?s1\<lparr>heap := (heap ?s1)[a := Comment
            ((ls @ [\<lparr>line_count = n, line_text = l\<rparr>])
               @ map (\<lambda>(n, l). \<lparr>line_count = n, line_text = l\<rparr>) xs)]\<rparr>)"
    by (rule Cons.IH) (use Cons.prems in simp_all)
  then show ?case by (simp add: x c)
qed

lemma add_emails_exact:
  assumes "attrs s ''emails'' = Some (PyList (Ref a # es))" and "a < length (heap s)"
    and "heap s ! a = Emails old"
  shows "add_emails xs s = Ok (s\<lparr>heap := (heap s)[a := Emails (old @ xs)]\<rparr>)"
  using assms
proof (induction xs arbitrary: s old)
  case Nil
  then have "(heap s)[a := Emails old] = heap s" by (metis list_update_id)
  then show ?case by simp
next
  case (Cons x xs)
  let ?s1 = "s\<lparr>heap := (heap s)[a := Emails (old @ [x])]\<rparr>"
  have c: "call_on_first ''emails'' add_email (Inr x) s = Ok ?s1"
    using Cons.prems by (simp add: call_on_first_def first_elem_def deref_def add_email_def)
  have "add_emails xs ?s1 = Ok (?s1\<lparr>heap := (heap ?s1)[a := Emails ((old @ [x]) @ xs)]\<rparr>)"
    by (rule Cons.IH) (use Cons.prems in simp_all)
  then show ?case by (simp add: c)
qed

lemma kind_streetAddressD: "kind ob = ''streetAddress'' \<Longrightarrow> \<exists>ls. ob = StreetAddress ls"
  by (cases ob) simp_all

lemma kind_commentD: "kind ob = ''comment'' \<Longrightarrow> \<exists>ls. ob = Comment ls"
  by (cases ob) simp_all

lemma kind_phonesD: "kind ob = ''phones'' \<Longrightarrow> \<exists>ps. ob = Phones ps"
  by (cases ob) simp_all

lemma kind_pocLinksD: "kind ob = ''pocLinks'' \<Longrightarrow> \<exists>rs. ob = PocLinks rs"
  by (cases ob) simp_all

lemma kind_emailsD: "kind ob = ''emails'' \<Longrightarrow> \<exists>es. ob = Emails es"
  by (cases ob) simp_all

lemma address_adds:
  "lazily_adds ''streetAddress'' (address val s) (new_entries ''_address'' val) s"
  unfolding address_def
proof (rule lazy_exact)
  fix t :: state and a es
  assume h: "attrs t ''streetAddress'' = Some (PyList (Ref a # es))" "a < length (heap t)"
    "kind (heap t ! a) = ''streetAddress''"
  from kind_streetAddressD [OF h(3)] obtain ls where ls: "heap t ! a = StreetAddress ls" ..
  from add_lines_street [OF h(1,2) ls, of "py_enumerate 0 val"]
  show "add_lines ''streetAddress'' (py_enumerate 0 val) t =
          Ok (t\<lparr>heap := (heap t)[a := append_obj (heap t ! a) (new_entries ''_address'' val)]\<rparr>)"
    by (simp add: ls new_entries_def)
qed (simp_all add: new_entries_def)

lemma comment_adds:
  "lazily_adds ''comment'' (comment val s) (new_entries ''_comment'' val) s"
  unfolding comment_def
proof (rule lazy_exact)
  fix t :: state and a es
  assume h: "attrs t ''comment'' = Some (PyList (Ref a # es))" "a < length (heap t)"
    "kind (heap t ! a) = ''comment''"
  from kind_commentD [OF h(3)] obtain ls where ls: "heap t ! a = Comment ls" ..
  from add_lines_comment [OF h(1,2) ls, of "py_enumerate 0 val"]
  show "add_lines ''comment'' (py_enumerate 0 val) t =
          Ok (t\<lparr>heap := (heap t)[a := append_obj (heap t ! a) (new_entries ''_comment'' val)]\<rparr>)"
    by (simp add: ls new_entries_def)
qed (simp_all add: new_entries_def)

lemma email_address_adds:
  "lazily_adds ''emails'' (email_address val s) (new_entries ''_email_address'' val) s"
  unfolding email_address_def
proof (rule lazy_exact)
  fix t :: state and a es
  assume h: "attrs t ''emails'' = Some (PyList (Ref a # es))" "a < length (heap t)"
    "kind (heap t ! a) = ''emails''"
  from kind_emailsD [OF h(3)] obtain old where old: "heap t ! a = Emails old" ..
  from add_emails_exact [OF h(1,2) old, of val]
  show "add_emails val t =
          Ok (t\<lparr>heap := (heap t)[a := append_obj (heap t ! a) (new_entries ''_email_address'' val)]\<rparr>)"
    by (simp add: old new_entries_def)
qed (simp_all add: new_entries_def)

lemma phone_method_adds:
  "lazily_adds ''phones'' (phone_method val tc s)
     (Phones [\<lparr>number = val, phone_type = [\<lparr>code = [tc]\<rparr>], extension = None\<rparr>]) s"
  unfolding phone_method_def
proof (rule lazy_exact)
  fix t :: state and a es
  assume h: "attrs t ''phones'' = Some (PyList (Ref a # es))" "a < length (heap t)"
    "kind (heap t ! a) = ''phones''"
  from kind_phonesD [OF h(3)] obtain ps where ps: "heap t ! a = Phones ps" ..
  show "call_on_first ''phones'' add_phone
          (Inr \<lparr>number = val, phone_type = [\<lparr>code = [tc]\<rparr>], extension = None\<rparr>) t =
          Ok (t\<lparr>heap := (heap t)[a := append_obj (heap t ! a)
               (Phones [\<lparr>number = val, phone_type = [\<lparr>code = [tc]\<rparr>], extension = None\<rparr>])]\<rparr>)"
    using h(1,2) by (simp add: ps call_on_first_def first_elem_def deref_def add_phone_def)
qed simp_all

lemma poc_adds:
  assumes "val \<noteq> []"
  shows "lazily_adds ''pocLinks'' (poc val fn s)
     (PocLinks [\<lparr>poc_function = fn, poc_handle = hd val\<rparr>]) s"
  unfolding poc_def
proof (rule lazy_exact)
  fix t :: state and a es
  assume h: "attrs t ''pocLinks'' = Some (PyList (Ref a # es))" "a < length (heap t)"
    "kind (heap t ! a) = ''pocLinks''"
  from kind_pocLinksD [OF h(3)] obtain rs where rs: "heap t ! a = PocLinks rs" ..
  obtain v vs where v: "val = v # vs" using assms by (cases val) auto
  show "call_on_first ''pocLinks'' add_pocLinkRef
          (case val of [] \<Rightarrow> Inl IndexError
           | v # vs \<Rightarrow> Inr \<lparr>poc_function = fn, poc_handle = v\<rparr>) t =
          Ok (t\<lparr>heap := (heap t)[a := append_obj (heap t ! a)
               (PocLinks [\<lparr>poc_function = fn, poc_handle = hd val\<rparr>])]\<rparr>)"
    using h(1,2) by (simp add: rs v call_on_first_def first_elem_def deref_def add_pocLinkRef_def)
qed simp_all

lemma method_adds:
  assumes "getattr_self m = Inr meth" and "handler_field m \<in> set container_fields"
    and "m \<noteq> ''_office_extension''" and "handler_field m = ''pocLinks'' \<longrightarrow> val \<noteq> []"
  shows "lazily_adds (handler_field m) (meth val s) (new_entries m val) s"
proof -
  have po: "lazily_adds ''phones'' (phone_office val s) (new_entries ''_phone_office'' val) s"
    using phone_method_adds [of val "''O''" s] by (simp add: phone_office_def new_entries_def)
  have pm: "lazily_adds ''phones'' (phone_mobile val s) (new_entries ''_phone_mobile'' val) s"
    using phone_method_adds [of val "''M''" s] by (simp add: phone_mobile_def new_entries_def)
  have pf: "lazily_adds ''phones'' (phone_fax val s) (new_entries ''_phone_fax'' val) s"
    using phone_method_adds [of val "''F''" s] by (simp add: phone_fax_def new_entries_def)
  have ad: "val \<noteq> [] \<Longrightarrow> lazily_adds ''pocLinks'' (poc_admin val s) (new_entries ''_poc_admin'' val) s"
    using poc_adds [of val "''AD''" s] by (simp add: poc_admin_def new_entries_def)
  have te: "val \<noteq> [] \<Longrightarrow> lazily_adds ''pocLinks'' (poc_tech val s) (new_entries ''_poc_tech'' val) s"
    using poc_adds [of val "''T''" s] by (simp add: poc_tech_def new_entries_def)
  have ab: "val \<noteq> [] \<Longrightarrow> lazily_adds ''pocLinks'' (poc_abuse val s) (new_entries ''_poc_abuse'' val) s"
    using poc_adds [of val "''AB''" s] by (simp add: poc_abuse_def new_entries_def)
  have no: "val \<noteq> [] \<Longrightarrow> lazily_adds ''pocLinks'' (poc_noc val s) (new_entries ''_poc_noc'' val) s"
    using poc_adds [of val "''N''" s] by (simp add: poc_noc_def new_entries_def)
  from assms show ?thesis
    by (auto simp: getattr_self_def handler_field_def container_fields_def
          address_adds comment_adds email_address_adds po pm pf ad te ab no
        split: if_splits)
qed

lemma not_falsy_nonempty: "\<not> falsy v \<Longrightarrow> \<exists>e es. v = PyList (e # es)"
  by (cases v) (auto simp: falsy_def neq_Nil_conv)

lemma lazy_ok_nonempty:
  assumes body: "\<And>t. attrs (state_of (body t)) = attrs t"
    and ok: "and_then (ensure_container g fresh s) body = Ok s'"
  shows "\<exists>e es. attrs s' g = Some (PyList (e # es))"
proof -
  from and_then_OkD [OF ok] obtain s1 where e: "ensure_container g fresh s = Ok s1"
    and b: "body s1 = Ok s'" by blast
  from e have "\<exists>e es. attrs s1 g = Some (PyList (e # es))"
    by (auto simp: ensure_container_def split: option.splits if_splits dest: not_falsy_nonempty)
  moreover have "attrs s' = attrs s1" using body [of s1] b by simp
  ultimately show ?thesis by simp
qed

lemma method_ok_nonempty:
  assumes "getattr_self m = Inr meth" and "handler_field m \<in> set container_fields"
    and "m \<noteq> ''_office_extension''" and "meth val s = Ok s'"
  shows "\<exists>e es. attrs s' (handler_field m) = Some (PyList (e # es))"
proof -
  have ph: "\<exists>e es. attrs s' ''phones'' = Some (PyList (e # es))"
    if "phone_method val tc s = Ok s'" for tc
    using that unfolding phone_method_def
    by (rule lazy_ok_nonempty [rotated]) (simp add: call_on_first_frame add_phone_kind)
  have pc: "\<exists>e es. attrs s' ''pocLinks'' = Some (PyList (e # es))"
    if "poc val fn s = Ok s'" for fn
    using that unfolding poc_def
    by (rule lazy_ok_nonempty [rotated]) (simp add: call_on_first_frame add_pocLinkRef_kind)
  have ad: "\<exists>e es. attrs s' ''streetAddress'' = Some (PyList (e # es))"
    if "address val s = Ok s'"
    using that unfolding address_def
    by (rule lazy_ok_nonempty [rotated]) (simp add: add_lines_frame)
  have co: "\<exists>e es. attrs s' ''comment'' = Some (PyList (e # es))"
    if "comment val s = Ok s'"
    using that unfolding comment_def
    by (rule lazy_ok_nonempty [rotated]) (simp add: add_lines_frame)
  have em: "\<exists>e es. attrs s' ''emails'' = Some (PyList (e # es))"
    if "email_address val s = Ok s'"
    using that unfolding email_address_def
    by (rule lazy_ok_nonempty [rotated]) (simp add: add_emails_frame)
  from assms show ?thesis
    by (auto simp: getattr_self_def handler_field_def container_fields_def
          phone_office_def phone_mobile_def phone_fax_def
          poc_admin_def poc_tech_def poc_abuse_def poc_noc_def
        split: if_splits intro: ph pc ad co em)
qed

lemma run_creates_when_needed:
  assumes sc: "\<forall>(k, a)\<in>set (attr cfg). a \<notin> set container_fields"
    and f: "f \<in> set container_fields"
    and k: "(k, v) \<in> set src" "map_of (handler cfg) k = Some m" "getattr_self m = Inr meth"
      "handler_field m = f" "m \<noteq> ''_office_extension''"
    and ok: "run_loop getattr_self cfg src s = Ok s'"
  shows "(\<exists>e es. attrs s' f = Some (PyList (e # es)))
       \<and> ((\<exists>w. attrs s f = Some w \<and> falsy w) \<longrightarrow> created f s' = created f s + 1)"
proof -
  from split_list [OF k(1)] obtain pre post where src: "src = pre @ (k, v) # post" by blast
  from ok have "and_then (run_loop getattr_self cfg pre s)
                  (run_loop getattr_self cfg ((k, v) # post)) = Ok s'"
    unfolding src by (simp only: run_loop_append)
  from and_then_OkD [OF this] obtain s1 where
    r1: "run_loop getattr_self cfg ((k, v) # post) s1 = Ok s'" by blast
  have d: "dispatch getattr_self cfg k v s1 = meth v s1" using k(2,3) by (simp add: dispatch_def)
  from r1 have "and_then (meth v s1) (run_loop getattr_self cfg post) = Ok s'" by (simp add: d)
  from and_then_OkD [OF this] obtain s2 where m2: "meth v s1 = Ok s2"
    and r2: "run_loop getattr_self cfg post s2 = Ok s'" by blast
  from method_ok_nonempty [OF k(3) _ k(5) m2] f k(4)
  have t2: "\<exists>e es. attrs s2 f = Some (PyList (e # es))" by simp
  have "build_ok f s2 (state_of (run_loop getattr_self cfg post s2))"
    by (rule run_loop_build_ok [where getm = getattr_self]) (use method_summary sc f in blast)+
  with r2 have b2: "build_ok f s2 s'" by simp
  from t2 have "\<not> (\<exists>w. attrs s2 f = Some w \<and> falsy w)" by (auto simp: falsy_def)
  with b2 have "attrs s' f = attrs s2 f" by (auto simp: build_ok_def)
  with t2 have t: "\<exists>e es. attrs s' f = Some (PyList (e # es))" by simp
  have "build_ok f s (state_of (run_loop getattr_self cfg src s))"
    by (rule run_loop_build_ok [where getm = getattr_self]) (use method_summary sc f in blast)+
  with ok have b: "build_ok f s s'" by simp
  have "created f s' = created f s + 1" if w: "\<exists>w. attrs s f = Some w \<and> falsy w"
  proof -
    from w t have "attrs s' f \<noteq> attrs s f" by (auto simp: falsy_def)
    with b show ?thesis by (auto simp: build_ok_def)
  qed
  with t show ?thesis by blast
qed

text \<open>
  Claim C6. Let no scalar rule assign one of the five container attributes, and let \<open>f\<close> be
  one of them. From every payload and for every source, whether the run returns or raises:
  the run constructs at most one container for \<open>f\<close>; if \<open>f\<close> already holds a non-empty list
  at the start (the container exists), the run constructs none and \<open>f\<close> holds the same
  references at the end; if the run constructs one, \<open>f\<close> ends as the one-element list that
  refers to this new container; and if the run returns and the source holds a key of a
  handler that fills \<open>f\<close>, then \<open>f\<close> holds a non-empty list at the end, and exactly one
  container was constructed when \<open>f\<close> was false at the start. Every call of such a handler
  (for the point-of-contact handlers with a value list that is not empty) behaves so:
  when \<open>f\<close> is false, the call returns after constructing one container that holds exactly
  the new entries and making \<open>f\<close> the one-element list that refers to it; when \<open>f\<close> refers
  to a container for \<open>f\<close>, the call returns after appending the new entries to that very
  container, constructing nothing and leaving \<open>f\<close> as it was.
\<close>

theorem C6_container_created_at_most_once:
  assumes "\<forall>(k, a)\<in>set (attr cfg). a \<notin> set container_fields"
    and "f \<in> set container_fields"
  shows "created f (state_of (run_loop getattr_self cfg src s)) \<le> created f s + 1
       \<and> ((\<exists>e es. attrs s f = Some (PyList (e # es))) \<longrightarrow>
            created f (state_of (run_loop getattr_self cfg src s)) = created f s
          \<and> attrs (state_of (run_loop getattr_self cfg src s)) f = attrs s f)
       \<and> (created f (state_of (run_loop getattr_self cfg src s)) = created f s + 1 \<longrightarrow>
            (\<exists>a. attrs (state_of (run_loop getattr_self cfg src s)) f = Some (PyList [Ref a])
                 \<and> length (heap s) \<le> a
                 \<and> a < length (heap (state_of (run_loop getattr_self cfg src s)))
                 \<and> kind (heap (state_of (run_loop getattr_self cfg src s)) ! a) = f))
       \<and> (\<forall>k v m meth s'. (k, v) \<in> set src \<and> map_of (handler cfg) k = Some m
              \<and> getattr_self m = Inr meth \<and> handler_field m = f \<and> m \<noteq> ''_office_extension''
              \<and> run_loop getattr_self cfg src s = Ok s' \<longrightarrow>
            (\<exists>e es. attrs s' f = Some (PyList (e # es)))
          \<and> ((\<exists>w. attrs s f = Some w \<and> falsy w) \<longrightarrow> created f s' = created f s + 1))
       \<and> (\<forall>m meth val t. getattr_self m = Inr meth \<and> handler_field m = f
              \<and> m \<noteq> ''_office_extension'' \<and> (f = ''pocLinks'' \<longrightarrow> val \<noteq> []) \<longrightarrow>
            (\<forall>w. attrs t f = Some w \<and> falsy w \<longrightarrow>
               meth val t = Ok (t\<lparr>attrs := (attrs t)(f \<mapsto> PyList [Ref (length (heap t))]),
                                  heap := heap t @ [new_entries m val]\<rparr>))
          \<and> (\<forall>a es. attrs t f = Some (PyList (Ref a # es)) \<and> a < length (heap t)
                  \<and> kind (heap t ! a) = f \<longrightarrow>
               meth val t =
                 Ok (t\<lparr>heap := (heap t)[a := append_obj (heap t ! a) (new_entries m val)]\<rparr>)))"
proof -
  let ?s' = "state_of (run_loop getattr_self cfg src s)"
  have "build_ok f s ?s'"
    by (rule run_loop_build_ok [where getm = getattr_self]) (use method_summary assms in blast)+
  then have alt: "(created f ?s' = created f s \<and> attrs ?s' f = attrs s f)
         \<or> ((\<exists>w. attrs s f = Some w \<and> falsy w)
             \<and> created f ?s' = created f s + 1
             \<and> (\<exists>a. attrs ?s' f = Some (PyList [Ref a]) \<and> length (heap s) \<le> a
                    \<and> a < length (heap ?s') \<and> kind (heap ?s' ! a) = f))"
    by (simp add: build_ok_def)
  have t: "(\<exists>e es. attrs s f = Some (PyList (e # es))) \<Longrightarrow>
             \<not> (\<exists>w. attrs s f = Some w \<and> falsy w)"
    by (auto simp: falsy_def)
  from alt t have run: "created f ?s' \<le> created f s + 1
       \<and> ((\<exists>e es. attrs s f = Some (PyList (e # es))) \<longrightarrow>
            created f ?s' = created f s \<and> attrs ?s' f = attrs s f)
       \<and> (created f ?s' = created f s + 1 \<longrightarrow>
            (\<exists>a. attrs ?s' f = Some (PyList [Ref a]) \<and> length (heap s) \<le> a
                 \<and> a < length (heap ?s') \<and> kind (heap ?s' ! a) = f))"
    by auto
  have need: "\<forall>k v m meth s'. (k, v) \<in> set src \<and> map_of (handler cfg) k = Some m
              \<and> getattr_self m = Inr meth \<and> handler_field m = f \<and> m \<noteq> ''_office_extension''
              \<and> run_loop getattr_self cfg src s = Ok s' \<longrightarrow>
            (\<exists>e es. attrs s' f = Some (PyList (e # es)))
          \<and> ((\<exists>w. attrs s f = Some w \<and> falsy w) \<longrightarrow> created f s' = created f s + 1)"
    using run_creates_when_needed [OF assms] by blast
  have call: "\<forall>m meth val t. getattr_self m = Inr meth \<and> handler_field m = f
              \<and> m \<noteq> ''_office_extension'' \<and> (f = ''pocLinks'' \<longrightarrow> val \<noteq> []) \<longrightarrow>
            (\<forall>w. attrs t f = Some w \<and> falsy w \<longrightarrow>
               meth val t = Ok (t\<lparr>attrs := (attrs t)(f \<mapsto> PyList [Ref (length (heap t))]),
                                  heap := heap t @ [new_entries m val]\<rparr>))
          \<and> (\<forall>a es. attrs t f = Some (PyList (Ref a # es)) \<and> a < length (heap t)
                  \<and> kind (heap t ! a) = f \<longrightarrow>
               meth val t =
                 Ok (t\<lparr>heap := (heap t)[a := append_obj (heap t ! a) (new_entries m val)]\<rparr>))"
  proof (intro allI impI)
    fix m meth and val :: "string list" and t :: state
    assume h: "getattr_self m = Inr meth \<and> handler_field m = f
              \<and> m \<noteq> ''_office_extension'' \<and> (f = ''pocLinks'' \<longrightarrow> val \<noteq> [])"
    then have g: "getattr_self m = Inr meth" and hf: "handler_field m = f"
      and ne: "m \<noteq> ''_office_extension''" and pv: "handler_field m = ''pocLinks'' \<longrightarrow> val \<noteq> []"
      by simp_all
    have cf: "handler_field m \<in> set container_fields" using assms(2) hf by simp
    have "lazily_adds (handler_field m) (meth val t) (new_entries m val) t"
      using g cf ne pv by (rule method_adds)
    then have "lazily_adds f (meth val t) (new_entries m val) t" by (simp only: hf)
    then show "(\<forall>w. attrs t f = Some w \<and> falsy w \<longrightarrow>
               meth val t = Ok (t\<lparr>attrs := (attrs t)(f \<mapsto> PyList [Ref (length (heap t))]),
                                  heap := heap t @ [new_entries m val]\<rparr>))
          \<and> (\<forall>a es. attrs t f = Some (PyList (Ref a # es)) \<and> a < length (heap t)
                  \<and> kind (heap t ! a) = f \<longrightarrow>
               meth val t =
                 Ok (t\<lparr>heap := (heap t)[a := append_obj (heap t ! a) (new_entries m val)]\<rparr>))"
      unfolding lazily_adds_def by blast
  qed
  from run need call show ?thesis by blast
qed

text \<open>
  Claim C2, as amended. Let no scalar rule assign \<open>phones\<close>, and let the source yield a key
  of the office-extension handler with no key of the office, mobile or fax handler yielded
  before it. On a payload whose \<open>phones\<close> attribute is undeclared, \<open>None\<close> or empty, the run of
  either converter raises, whatever is yielded after that key. On the other hand, when
  \<open>phones\<close> refers to a container whose entries all have a type other than \<open>O\<close>, the
  office-extension handler returns normally and changes nothing.
\<close>

theorem C2_extension_without_phone:
  assumes "\<forall>(k, a)\<in>set (attr cfg). a \<noteq> ''phones''"
    and "\<forall>(k', v')\<in>set pre. map_of (handler cfg) k'
             \<notin> {Some ''_phone_office'', Some ''_phone_mobile'', Some ''_phone_fax''}"
    and "map_of (handler cfg) k = Some ''_office_extension''"
  shows "(attrs s ''phones'' = None \<or> (\<exists>w. attrs s ''phones'' = Some w \<and> falsy w) \<longrightarrow>
            \<not> is_ok (run_loop getattr_self cfg (pre @ (k, v) # post) s)
          \<and> \<not> is_ok (run_loop (PayloadFromDict_getattr countries) cfg (pre @ (k, v) # post) s))
       \<and> (\<forall>a es ps. attrs s ''phones'' = Some (PyList (Ref a # es)) \<and> a < length (heap s)
            \<and> heap s ! a = Phones ps
            \<and> (\<forall>p\<in>set ps. \<exists>t ts c cs. phone_type p = t # ts \<and> code t = c # cs \<and> c \<noteq> ''O'')
            \<longrightarrow> office_extension val s = Ok s)"
proof -
  let ?upto = "pre @ [(k, v)]"
  have np: "\<forall>(k', v')\<in>set ?upto. map_of (handler cfg) k'
             \<notin> {Some ''_phone_office'', Some ''_phone_mobile'', Some ''_phone_fax''}"
    using assms(2,3) by auto
  have ex: "\<exists>(k', v')\<in>set ?upto. map_of (handler cfg) k' = Some ''_office_extension''"
    using assms(3) by auto
  have cut: "\<not> is_ok (run_loop getm cfg (pre @ (k, v) # post) s)"
    if "\<not> is_ok (run_loop getm cfg ?upto s)" for getm
  proof -
    have "run_loop getm cfg (?upto @ post) s
            = and_then (run_loop getm cfg ?upto s) (run_loop getm cfg post)"
      by (rule run_loop_append)
    with that show ?thesis by (cases "run_loop getm cfg ?upto s") simp_all
  qed
  have 1: "\<not> is_ok (run_loop getattr_self cfg (pre @ (k, v) # post) s)"
    if p: "attrs s ''phones'' = None \<or> (\<exists>w. attrs s ''phones'' = Some w \<and> falsy w)"
  proof (rule cut)
    show "\<not> is_ok (run_loop getattr_self cfg ?upto s)"
      by (rule run_loop_extension_fails [where getm = getattr_self, OF _ _ assms(1) np ex p])
         (use method_summary in \<open>simp_all add: getattr_self_def\<close>)
  qed
  have 2: "\<not> is_ok (run_loop (PayloadFromDict_getattr countries) cfg (pre @ (k, v) # post) s)"
    if p: "attrs s ''phones'' = None \<or> (\<exists>w. attrs s ''phones'' = Some w \<and> falsy w)"
  proof (rule cut)
    show "\<not> is_ok (run_loop (PayloadFromDict_getattr countries) cfg ?upto s)"
      by (rule run_loop_extension_fails [where getm = "PayloadFromDict_getattr countries",
            OF _ _ assms(1) np ex p])
         (use PayloadFromDict_method_summary in \<open>simp_all add: PayloadFromDict_getattr_def\<close>)
  qed
  have 3: "office_extension val s = Ok s"
    if "attrs s ''phones'' = Some (PyList (Ref a # es))" "a < length (heap s)"
       "heap s ! a = Phones ps"
       "\<forall>p\<in>set ps. \<exists>t ts c cs. phone_type p = t # ts \<and> code t = c # cs \<and> c \<noteq> ''O''"
    for a es ps
  proof -
    have "(heap s)[a := Phones ps] = heap s" using that(3) by (metis list_update_id)
    with that set_extension_well_shaped [OF that(4), of val] show ?thesis
      by (simp add: office_extension_def first_elem_def deref_def)
  qed
  from 1 2 3 show ?thesis by blast
qed

text \<open>
  The amended claim at the tables of both converters, with the mobile key yielded after the
  extension key, and at the payload that holds a mobile number.
\<close>

theorem C2_witness:
  "\<not> is_ok (run_loop getattr_self PayloadFromTemplateDict
        ([(''City'', [''A''])] @ (''Office Phone Number Extension'', [''12''])
           # [(''Mobile'', [''555''])]) example_payload)
   \<and> \<not> is_ok (run_loop (PayloadFromDict_getattr (\<lambda>c. None)) PayloadFromDict
        ([(''City'', [''A''])] @ (''Office Phone Number Extension'', [''12''])
           # [(''Mobile'', [''555''])]) example_payload)
   \<and> attrs mobile_payload ''phones'' = Some (PyList [Ref 0])
   \<and> office_extension [''12''] mobile_payload = Ok mobile_payload"
proof -
  let ?pre = "[(''City'', [''A''])]"
  have a: "\<forall>(k, a)\<in>set (attr PayloadFromTemplateDict). a \<noteq> ''phones''"
    by (simp add: PayloadFromTemplateDict_def)
  have b: "\<forall>(k', v')\<in>set ?pre. map_of (handler PayloadFromTemplateDict) k'
             \<notin> {Some ''_phone_office'', Some ''_phone_mobile'', Some ''_phone_fax''}"
    by (simp add: PayloadFromTemplateDict_def)
  have c: "map_of (handler PayloadFromTemplateDict) ''Office Phone Number Extension''
             = Some ''_office_extension''"
    by (simp add: PayloadFromTemplateDict_def)
  have a': "\<forall>(k, a)\<in>set (attr PayloadFromDict). a \<noteq> ''phones''"
    by (simp add: PayloadFromDict_def)
  have b': "\<forall>(k', v')\<in>set ?pre. map_of (handler PayloadFromDict) k'
             \<notin> {Some ''_phone_office'', Some ''_phone_mobile'', Some ''_phone_fax''}"
    by (simp add: PayloadFromDict_def)
  have c': "map_of (handler PayloadFromDict) ''Office Phone Number Extension''
             = Some ''_office_extension''"
    by (simp add: PayloadFromDict_def)
  have f: "attrs example_payload ''phones'' = Some (PyList [])" "falsy (PyList [])"
    by (simp_all add: example_payload_def falsy_def)
  have g: "attrs mobile_payload ''phones'' = Some (PyList (Ref 0 # []))"
    "0 < length (heap mobile_payload)"
    "heap mobile_payload ! 0
       = Phones [\<lparr>number = [''555''], phone_type = [\<lparr>code = [''M'']\<rparr>], extension = None\<rparr>]"
    "\<forall>p\<in>set [\<lparr>number = [''555''], phone_type = [\<lparr>code = [''M'']\<rparr>], extension = None\<rparr>].
        \<exists>t ts c cs. phone_type p = t # ts \<and> code t = c # cs \<and> c \<noteq> ''O''"
    by (simp_all add: mobile_payload_def)
  from C2_extension_without_phone
         [OF a b c, of example_payload "[''12'']" "[(''Mobile'', [''555''])]" "\<lambda>c. None" "[''12'']"]
       C2_extension_without_phone
         [OF a' b' c', of example_payload "[''12'']" "[(''Mobile'', [''555''])]" "\<lambda>c. None" "[''12'']"]
       f
  have 1: "\<not> is_ok (run_loop getattr_self PayloadFromTemplateDict
        (?pre @ (''Office Phone Number Extension'', [''12'']) # [(''Mobile'', [''555''])])
        example_payload)
       \<and> \<not> is_ok (run_loop (PayloadFromDict_getattr (\<lambda>c. None)) PayloadFromDict
        (?pre @ (''Office Phone Number Extension'', [''12'']) # [(''Mobile'', [''555''])])
        example_payload)"
    by blast
  from C2_extension_without_phone
         [OF a b c, of mobile_payload "[''12'']" "[]" "\<lambda>c. None" "[''12'']"] g
  have 2: "office_extension [''12''] mobile_payload = Ok mobile_payload"
    by blast
  from 1 2 g(1) show ?thesis by simp
qed

text \<open>
  Neither \<open>Bogus1\<close> nor \<open>Bogus2\<close> is in one of the three tables. The run on a source that
  yields them in this order raises the error that names \<open>Bogus1\<close>; no error names \<open>Bogus2\<close>.
\<close>

theorem C4_counterexample:
  "map_of (handler PayloadFromTemplateDict) ''Bogus2'' = None
   \<and> map_of (attr PayloadFromTemplateDict) ''Bogus2'' = None
   \<and> ''Bogus2'' \<notin> set (ignore PayloadFromTemplateDict)
   \<and> run PayloadFromTemplateDict
        \<lparr>source = [(''Bogus1'', [''x'']), (''Bogus2'', [''y''])], payload = example_payload\<rparr>
      = Raised (RegRwsError ''regrws.payload.poc.poc has no attribute corresponding to key Bogus1'')
          example_payload
   \<and> RegRwsError ''regrws.payload.poc.poc has no attribute corresponding to key Bogus1''
      \<noteq> RegRwsError (cls example_payload @ '' has no attribute corresponding to key '' @ ''Bogus2'')"
  by (simp add: run_def dispatch_def PayloadFromTemplateDict_def example_payload_def)

text \<open>
  The claim at the tables of \<open>PayloadFromTemplateDict\<close>: two address keys share the one
  container that the first of them constructs; the mobile handler constructs the phones
  container on the example payload, and the office handler then appends to it.
\<close>

theorem C6_witness:
  "created ''streetAddress'' example_payload = 0
   \<and> created ''streetAddress'' (state_of (run_loop getattr_self PayloadFromTemplateDict
        [(''Address'', [''1 Main St'']), (''City'', [''X'']), (''Org Address'', [''Suite 2''])]
        example_payload)) = 1
   \<and> attrs (state_of (run_loop getattr_self PayloadFromTemplateDict
        [(''Address'', [''1 Main St'']), (''City'', [''X'']), (''Org Address'', [''Suite 2''])]
        example_payload)) ''streetAddress'' = Some (PyList [Ref 0])
   \<and> heap (state_of (run_loop getattr_self PayloadFromTemplateDict
        [(''Address'', [''1 Main St'']), (''City'', [''X'']), (''Org Address'', [''Suite 2''])]
        example_payload))
       = [StreetAddress [\<lparr>line_count = 0, line_text = ''1 Main St''\<rparr>,
                         \<lparr>line_count = 0, line_text = ''Suite 2''\<rparr>]]
   \<and> phone_mobile [''555''] example_payload = Ok mobile_payload
   \<and> phone_office [''777''] mobile_payload
       = Ok (mobile_payload\<lparr>heap :=
           [Phones [\<lparr>number = [''555''], phone_type = [\<lparr>code = [''M'']\<rparr>], extension = None\<rparr>,
                    \<lparr>number = [''777''], phone_type = [\<lparr>code = [''O'']\<rparr>], extension = None\<rparr>]]\<rparr>)"
proof -
  let ?src = "[(''Address'', [''1 Main St'']), (''City'', [''X'']), (''Org Address'', [''Suite 2''])]"
  let ?s' = "state_of (run_loop getattr_self PayloadFromTemplateDict ?src example_payload)"
  have sc: "\<forall>(k, a)\<in>set (attr PayloadFromTemplateDict). a \<notin> set container_fields"
    by (simp add: PayloadFromTemplateDict_def container_fields_def)
  have f: "''streetAddress'' \<in> set container_fields" by (simp add: container_fields_def)
  have fp: "''phones'' \<in> set container_fields" by (simp add: container_fields_def)
  have c0: "created ''streetAddress'' example_payload = 0"
    by (simp add: created_def kinds_def example_payload_def)
  have h: "heap ?s' = [StreetAddress [\<lparr>line_count = 0, line_text = ''1 Main St''\<rparr>,
                         \<lparr>line_count = 0, line_text = ''Suite 2''\<rparr>]]"
    by (simp add: dispatch_def PayloadFromTemplateDict_def assign_def getattr_self_def
        verify_attribute_def getattr_default_def setattr_def example_payload_def
        address_def ensure_container_def falsy_def
        call_on_first_def first_elem_def deref_def add_line_def)
  then have c1: "created ''streetAddress'' ?s' = 1" by (simp add: created_def kinds_def)
  from C6_container_created_at_most_once [OF sc f, of ?src example_payload] c0 c1 h
  have a: "attrs ?s' ''streetAddress'' = Some (PyList [Ref 0])" by auto
  have gm: "getattr_self ''_phone_mobile'' = Inr phone_mobile"
    and go: "getattr_self ''_phone_office'' = Inr phone_office"
    by (simp_all add: getattr_self_def)
  have hm: "handler_field ''_phone_mobile'' = ''phones''"
    and ho: "handler_field ''_phone_office'' = ''phones''"
    by (simp_all add: handler_field_def)
  have e: "attrs example_payload ''phones'' = Some (PyList [])" "falsy (PyList [])"
    by (simp_all add: example_payload_def falsy_def)
  have m: "attrs mobile_payload ''phones'' = Some (PyList (Ref 0 # []))"
    "0 < length (heap mobile_payload)" "kind (heap mobile_payload ! 0) = ''phones''"
    by (simp_all add: mobile_payload_def)
  note call = C6_container_created_at_most_once [OF sc fp, of "[]" example_payload,
      THEN conjunct2, THEN conjunct2, THEN conjunct2, THEN conjunct2, rule_format]
  have qm: "getattr_self ''_phone_mobile'' = Inr phone_mobile
      \<and> handler_field ''_phone_mobile'' = ''phones''
      \<and> ''_phone_mobile'' \<noteq> ''_office_extension''
      \<and> (''phones'' = ''pocLinks'' \<longrightarrow> [''555''] \<noteq> [])"
    using gm hm by simp
  have qo: "getattr_self ''_phone_office'' = Inr phone_office
      \<and> handler_field ''_phone_office'' = ''phones''
      \<and> ''_phone_office'' \<noteq> ''_office_extension''
      \<and> (''phones'' = ''pocLinks'' \<longrightarrow> [''777''] \<noteq> [])"
    using go ho by simp
  from call [of "''_phone_mobile''" phone_mobile "[''555'']" example_payload, OF qm] e
  have "phone_mobile [''555''] example_payload
          = Ok (example_payload\<lparr>attrs := (attrs example_payload)
                    (''phones'' \<mapsto> PyList [Ref (length (heap example_payload))]),
                  heap := heap example_payload @ [new_entries ''_phone_mobile'' [''555'']]\<rparr>)"
    by blast
  then have pm: "phone_mobile [''555''] example_payload = Ok mobile_payload"
    by (simp add: mobile_payload_def new_entries_def example_payload_def)
  from call [of "''_phone_office''" phone_office "[''777'']" mobile_payload, OF qo] m
  have "phone_office [''777''] mobile_payload
          = Ok (mobile_payload\<lparr>heap := (heap mobile_payload)
                  [0 := append_obj (heap mobile_payload ! 0) (new_entries ''_phone_office'' [''777''])]\<rparr>)"
    by blast
  then have po: "phone_office [''777''] mobile_payload
       = Ok (mobile_payload\<lparr>heap :=
           [Phones [\<lparr>number = [''555''], phone_type = [\<lparr>code = [''M'']\<rparr>], extension = None\<rparr>,
                    \<lparr>number = [''777''], phone_type = [\<lparr>code = [''O'']\<rparr>], extension = None\<rparr>]]\<rparr>)"
    by (simp add: mobile_payload_def new_entries_def)
  from c0 c1 a h pm po show ?thesis by simp
qed

end
